theory Spec2Isabelle
  imports Complex_Main
begin

section \<open>Tensors and framework errors\<close>

text \<open>
  The repository drives a tensor library. Its numbers are modelled as reals (the
  formulas of the claims are read over the reals; rounding of the floating-point
  implementation is outside the model). A rank-1 tensor is a list, a rank-2 tensor keeps
  its second dimension beside its rows, so that a tensor with no row still has a shape.
\<close>

type_synonym 'a vec = "'a list"

datatype 'a tensor2 = Tensor2 (size1: nat) (rows: "'a list list")

definition size0 :: "'a tensor2 \<Rightarrow> nat" where
  "size0 m = length (rows m)"

definition wf_tensor2 :: "'a tensor2 \<Rightarrow> bool" where
  "wf_tensor2 m = list_all (\<lambda>r. length r = size1 m) (rows m)"

definition has_shape :: "'a tensor2 \<Rightarrow> nat \<Rightarrow> nat \<Rightarrow> bool" where
  "has_shape m r c = (size0 m = r \<and> size1 m = c \<and> wf_tensor2 m)"

text \<open>
  Every exception the modelled code can raise. All constructors but \<open>IndexError\<close> stand
  for a Python \<open>RuntimeError\<close>; their arguments are the values formatted into the message.
\<close>

datatype error =
    ActivationShouldBe string
  | InconsistentInputSize nat nat
  | BatchSizeMismatch nat string nat
  | InconsistentHiddenSize string nat nat
  | UnknownNonlinearity string
  | MatmulShape nat nat nat nat
  | BroadcastShape nat nat nat nat
  | IndexError

fun is_RuntimeError :: "error \<Rightarrow> bool" where
  "is_RuntimeError IndexError = False"
| "is_RuntimeError _ = True"

fun is_shape_check_error :: "error \<Rightarrow> bool" where
  "is_shape_check_error (InconsistentInputSize _ _) = True"
| "is_shape_check_error (BatchSizeMismatch _ _ _) = True"
| "is_shape_check_error (InconsistentHiddenSize _ _ _) = True"
| "is_shape_check_error _ = False"

definition new_zeros :: "nat \<Rightarrow> nat \<Rightarrow> real tensor2" where
  "new_zeros r c = Tensor2 c (replicate r (replicate c 0))"

subsection \<open>Broadcasting and matrix product\<close>

text \<open>
  \<open>broadcast_dim\<close> is the library's rule for one dimension of an elementwise operation:
  equal sizes, or one of them 1. \<open>expand\<close> repeats the single row or column.
\<close>

definition broadcast_dim :: "nat \<Rightarrow> nat \<Rightarrow> nat option" where
  "broadcast_dim a b =
     (if a = b then Some a else if a = 1 then Some b else if b = 1 then Some a else None)"

definition expand_list :: "nat \<Rightarrow> 'a list \<Rightarrow> 'a list" where
  "expand_list n xs = (if length xs = n then xs else replicate n (hd xs))"

definition expand :: "nat \<Rightarrow> nat \<Rightarrow> 'a tensor2 \<Rightarrow> 'a list list" where
  "expand r c m = map (expand_list c) (expand_list r (rows m))"

definition elementwise ::
  "(real \<Rightarrow> real \<Rightarrow> real) \<Rightarrow> real tensor2 \<Rightarrow> real tensor2 \<Rightarrow> error + real tensor2" where
  "elementwise f a b =
     (case (broadcast_dim (size0 a) (size0 b), broadcast_dim (size1 a) (size1 b)) of
        (Some r, Some c) \<Rightarrow>
          Inr (Tensor2 c (map2 (map2 f) (expand r c a) (expand r c b)))
      | _ \<Rightarrow> Inl (BroadcastShape (size0 a) (size1 a) (size0 b) (size1 b)))"

definition unsqueeze0 :: "'a vec \<Rightarrow> 'a tensor2" where
  "unsqueeze0 v = Tensor2 (length v) [v]"

definition add_vec :: "real tensor2 \<Rightarrow> real vec \<Rightarrow> error + real tensor2" where
  "add_vec a v = elementwise (+) a (unsqueeze0 v)"

definition dot :: "real list \<Rightarrow> real list \<Rightarrow> real" where
  "dot u v = sum_list (map2 (*) u v)"

definition col :: "'a tensor2 \<Rightarrow> nat \<Rightarrow> 'a list" where
  "col m j = map (\<lambda>r. r ! j) (rows m)"

definition mm :: "real tensor2 \<Rightarrow> real tensor2 \<Rightarrow> error + real tensor2" where
  "mm a b =
     (if size1 a \<noteq> size0 b then Inl (MatmulShape (size0 a) (size1 a) (size0 b) (size1 b))
      else Inr (Tensor2 (size1 b)
                  (map (\<lambda>r. map (\<lambda>j. dot r (col b j)) [0..<size1 b]) (rows a))))"

definition and_then :: "'e + 'a \<Rightarrow> ('a \<Rightarrow> 'e + 'b) \<Rightarrow> 'e + 'b" where
  "and_then r f = (case r of Inl e \<Rightarrow> Inl e | Inr x \<Rightarrow> f x)"

definition map_tensor2 :: "('a \<Rightarrow> 'b) \<Rightarrow> 'a tensor2 \<Rightarrow> 'b tensor2" where
  "map_tensor2 f m = Tensor2 (size1 m) (map (map f) (rows m))"

section \<open>nlptoolkit/models/rnn/rnn.py\<close>

datatype activation = F_relu | F_tanh

definition get_activation_fn :: "string \<Rightarrow> error + activation" where
  "get_activation_fn activation =
     (if activation = ''relu'' then Inr F_relu
      else if activation = ''tanh'' then Inr F_tanh
      else Inl (ActivationShouldBe activation))"

subsection \<open>NaiveCustomRNN\<close>

record NaiveCustomRNN =
  input_size :: nat
  hidden_size :: nat
  W_xh :: "real tensor2"
  W_hh :: "real tensor2"
  b_h :: "real vec"
  W_hq :: "real tensor2"
  b_q :: "real vec"

text \<open>The shapes the constructor gives the parameters.\<close>

definition NaiveCustomRNN_init :: "NaiveCustomRNN \<Rightarrow> bool" where
  "NaiveCustomRNN_init self =
     (has_shape (W_xh self) (input_size self) (hidden_size self) \<and>
      has_shape (W_hh self) (hidden_size self) (hidden_size self) \<and>
      length (b_h self) = hidden_size self \<and>
      has_shape (W_hq self) (hidden_size self) (hidden_size self) \<and>
      length (b_q self) = hidden_size self)"

definition NaiveCustomRNN_forward ::
  "NaiveCustomRNN \<Rightarrow> real tensor2 \<Rightarrow> real tensor2 option
     \<Rightarrow> error + (real tensor2 \<times> real tensor2)" where
  "NaiveCustomRNN_forward self input hx0 =
     (let hx = (case hx0 of None \<Rightarrow> new_zeros (size0 input) (hidden_size self)
                          | Some h \<Rightarrow> h)
      in and_then (mm input (W_xh self)) (\<lambda>xw.
         and_then (mm hx (W_hh self)) (\<lambda>hw.
         and_then (elementwise (+) xw hw) (\<lambda>s.
         and_then (add_vec s (b_h self)) (\<lambda>pre.
         let hy = map_tensor2 tanh pre
         in and_then (mm hy (W_hq self)) (\<lambda>hq.
            and_then (add_vec hq (b_q self)) (\<lambda>out.
            Inr (out, hy))))))))"

subsection \<open>RNNCellBase and RNNCell\<close>

record RNNCell =
  input_size :: nat
  hidden_size :: nat
  bias :: bool
  nonlinearity :: string
  weight_ih :: "real tensor2"
  weight_hh :: "real tensor2"
  bias_ih :: "real vec option"
  bias_hh :: "real vec option"

definition check_forward_input :: "RNNCell \<Rightarrow> real tensor2 \<Rightarrow> error + unit" where
  "check_forward_input self input =
     (if size1 input \<noteq> input_size self
      then Inl (InconsistentInputSize (size1 input) (input_size self))
      else Inr ())"

definition check_forward_hidden ::
  "RNNCell \<Rightarrow> real tensor2 \<Rightarrow> real tensor2 \<Rightarrow> string \<Rightarrow> error + unit" where
  "check_forward_hidden self input hx hidden_label =
     (if size0 input \<noteq> size0 hx
      then Inl (BatchSizeMismatch (size0 input) hidden_label (size0 hx))
      else if size1 hx \<noteq> hidden_size self
      then Inl (InconsistentHiddenSize hidden_label (size1 hx) (hidden_size self))
      else Inr ())"

text \<open>
  \<open>RNNTanhCell\<close> and \<open>RNNReLUCell\<close> are imported from the module \<open>.function\<close>, which is
  not part of the sources at hand: the two cell functions are parameters of the model.
\<close>

type_synonym 'r cell_fn =
  "real tensor2 \<Rightarrow> real tensor2 \<Rightarrow> real tensor2 \<Rightarrow> real tensor2
     \<Rightarrow> real vec option \<Rightarrow> real vec option \<Rightarrow> 'r"

definition RNNCell_forward ::
  "'r cell_fn \<Rightarrow> 'r cell_fn \<Rightarrow> RNNCell \<Rightarrow> real tensor2 \<Rightarrow> real tensor2 option
     \<Rightarrow> error + 'r" where
  "RNNCell_forward RNNTanhCell RNNReLUCell self input hx0 =
     and_then (check_forward_input self input) (\<lambda>_.
     let hx = (case hx0 of None \<Rightarrow> new_zeros (size0 input) (hidden_size self)
                         | Some h \<Rightarrow> h)
     in and_then (check_forward_hidden self input hx []) (\<lambda>_.
        if nonlinearity self = ''tanh''
        then Inr (RNNTanhCell input hx (weight_ih self) (weight_hh self)
                    (bias_ih self) (bias_hh self))
        else if nonlinearity self = ''relu''
        then Inr (RNNReLUCell input hx (weight_ih self) (weight_hh self)
                    (bias_ih self) (bias_hh self))
        else Inl (UnknownNonlinearity (nonlinearity self))))"

text \<open>The conditions under which neither shape check of \<open>RNNCell.forward\<close> raises.\<close>

definition shapes_agree :: "RNNCell \<Rightarrow> real tensor2 \<Rightarrow> real tensor2 option \<Rightarrow> bool" where
  "shapes_agree self input hx0 =
     (size1 input = input_size self \<and>
      (case hx0 of None \<Rightarrow> True
       | Some h \<Rightarrow> size0 h = size0 input \<and> size1 h = hidden_size self))"

text \<open>A cell function for the examples below: it returns the hidden state unchanged.\<close>

definition keep_hidden :: "(real tensor2) cell_fn" where
  "keep_hidden input hx w_ih w_hh b_ih b_hh = hx"

definition example_cell :: "string \<Rightarrow> RNNCell" where
  "example_cell nl =
     \<lparr>input_size = 2, hidden_size = 1, bias = False, nonlinearity = nl,
      weight_ih = Tensor2 2 [[0, 0]], weight_hh = Tensor2 1 [[0]],
      bias_ih = None, bias_hh = None\<rparr>"

subsection \<open>The textbook Elman cell\<close>

text \<open>
  The formulas of the specification, entry by entry:
  \<open>H' = tanh (X W_xh + H W_hh + b_h)\<close> and \<open>O = H' W_hq + b_q\<close>.
\<close>

definition entry :: "'a tensor2 \<Rightarrow> nat \<Rightarrow> nat \<Rightarrow> 'a" where
  "entry m i j = rows m ! i ! j"

definition elman_hidden ::
  "NaiveCustomRNN \<Rightarrow> real tensor2 \<Rightarrow> real tensor2 \<Rightarrow> nat \<Rightarrow> nat \<Rightarrow> real" where
  "elman_hidden self X H i j =
     tanh ((\<Sum>k<NaiveCustomRNN.input_size self. entry X i k * entry (W_xh self) k j)
         + (\<Sum>k<NaiveCustomRNN.hidden_size self. entry H i k * entry (W_hh self) k j)
         + b_h self ! j)"

definition elman_output ::
  "NaiveCustomRNN \<Rightarrow> real tensor2 \<Rightarrow> nat \<Rightarrow> nat \<Rightarrow> real" where
  "elman_output self H' i j =
     (\<Sum>k<NaiveCustomRNN.hidden_size self. entry H' i k * entry (W_hq self) k j)
       + b_q self ! j"

section \<open>nlptoolkit/models/seq2seq/rnn_mt.py\<close>

text \<open>
  \<open>random.random()\<close>: the state of the generator is the sequence of the draws it will
  return; a call returns the first and leaves the rest.
\<close>

type_synonym rng = "nat \<Rightarrow> real"

definition random_random :: "rng \<Rightarrow> real \<times> rng" where
  "random_random g = (g 0, (\<lambda>n. g (Suc n)))"

text \<open>\<open>argmax(1)\<close>: for each row the index of its first greatest entry.\<close>

fun argmax_from :: "nat \<Rightarrow> real \<Rightarrow> nat \<Rightarrow> real list \<Rightarrow> nat" where
  "argmax_from best bv i [] = best"
| "argmax_from best bv i (x # xs) =
     (if bv < x then argmax_from i x (Suc i) xs else argmax_from best bv (Suc i) xs)"

definition argmax_row :: "real list \<Rightarrow> int" where
  "argmax_row r = (case r of [] \<Rightarrow> 0 | x # xs \<Rightarrow> int (argmax_from 0 x 1 xs))"

definition argmax1 :: "real tensor2 \<Rightarrow> error + int vec" where
  "argmax1 m = (if size1 m = 0 then Inl IndexError else Inr (map argmax_row (rows m)))"

text \<open>
  \<open>outputs[t] = output\<close>: the slice of \<open>outputs\<close> at \<open>t\<close> is overwritten by \<open>output\<close>,
  broadcast to the slice's shape.
\<close>

definition setitem ::
  "real tensor2 list \<Rightarrow> nat \<Rightarrow> real tensor2 \<Rightarrow> error + real tensor2 list" where
  "setitem outs t v =
     (if length outs \<le> t then Inl IndexError
      else let d = outs ! t
           in if (size0 v = size0 d \<or> size0 v = 1) \<and> (size1 v = size1 d \<or> size1 v = 1)
              then Inr (outs[t := Tensor2 (size1 d) (expand (size0 d) (size1 d) v)])
              else Inl (BroadcastShape (size0 d) (size1 d) (size0 v) (size1 v)))"

text \<open>
  The encoder and the decoder are modules of the tensor library's layers; the driver
  loop only calls them, so they are fields of function type. Of the fields of the class,
  the record keeps those that \<open>forward\<close> reads.
\<close>

record ('s, 'o, 'h) RNNSeq2Seq =
  trg_vocab_size :: nat
  encoder :: "'s \<Rightarrow> 'o \<times> 'h"
  decoder :: "int vec \<Rightarrow> 'h \<Rightarrow> 'h \<Rightarrow> real tensor2 \<times> 'h"

text \<open>One call of the decoder, as the loop made it, and the input the loop chose next.\<close>

record 'h decoder_call =
  call_input :: "int vec"
  call_hidden :: 'h
  call_context :: 'h
  call_output :: "real tensor2"
  next_input :: "int vec"

text \<open>
  The variables of the loop: \<open>input\<close>, \<open>hidden\<close>, \<open>outputs\<close>, the random generator, and
  the log of the decoder calls made so far (the log is not a variable of the source: it
  records what the loop did).
\<close>

record 'h loop_state =
  dec_input :: "int vec"
  hidden :: 'h
  outputs :: "real tensor2 list"
  rng_state :: rng
  calls :: "'h decoder_call list"

definition decode_step ::
  "('s, 'o, 'h) RNNSeq2Seq \<Rightarrow> int tensor2 \<Rightarrow> real \<Rightarrow> 'h \<Rightarrow> nat \<Rightarrow> 'h loop_state
     \<Rightarrow> error + 'h loop_state" where
  "decode_step self trg teacher_forcing_ratio context t st =
     (let (output, hidden') = decoder self (dec_input st) (hidden st) context
      in and_then (setitem (outputs st) t output) (\<lambda>outs.
         let (draw, g) = random_random (rng_state st);
             teacher_force = (draw < teacher_forcing_ratio)
         in and_then (argmax1 output) (\<lambda>top1.
            let nxt = (if teacher_force then rows trg ! t else top1)
            in Inr \<lparr>dec_input = nxt, hidden = hidden', outputs = outs, rng_state = g,
                    calls = calls st @
                      [\<lparr>call_input = dec_input st, call_hidden = hidden st,
                        call_context = context, call_output = output,
                        next_input = nxt\<rparr>]\<rparr>)))"

fun decode_loop ::
  "('s, 'o, 'h) RNNSeq2Seq \<Rightarrow> int tensor2 \<Rightarrow> real \<Rightarrow> 'h \<Rightarrow> nat list \<Rightarrow> 'h loop_state
     \<Rightarrow> error + 'h loop_state" where
  "decode_loop self trg tfr context [] st = Inr st"
| "decode_loop self trg tfr context (t # ts) st =
     and_then (decode_step self trg tfr context t st) (decode_loop self trg tfr context ts)"

definition forward_state ::
  "('s, 'o, 'h) RNNSeq2Seq \<Rightarrow> 's \<Rightarrow> int tensor2 \<Rightarrow> real \<Rightarrow> rng \<Rightarrow> error + 'h loop_state" where
  "forward_state self src trg teacher_forcing_ratio g =
     (let batch_size = size1 trg;
          trg_len = size0 trg;
          outs = replicate trg_len (new_zeros batch_size (trg_vocab_size self));
          context = snd (encoder self src);
          hidden0 = context
      in if trg_len = 0 then Inl IndexError
         else decode_loop self trg teacher_forcing_ratio context [1..<trg_len]
                \<lparr>dec_input = rows trg ! 0, hidden = hidden0, outputs = outs,
                 rng_state = g, calls = []\<rparr>)"

definition RNNSeq2Seq_forward ::
  "('s, 'o, 'h) RNNSeq2Seq \<Rightarrow> 's \<Rightarrow> int tensor2 \<Rightarrow> real \<Rightarrow> rng
     \<Rightarrow> error + real tensor2 list" where
  "RNNSeq2Seq_forward self src trg teacher_forcing_ratio g =
     and_then (forward_state self src trg teacher_forcing_ratio g) (\<lambda>st. Inr (outputs st))"

text \<open>
  A decoder whose prediction, on a batch of tokens, has the shape
  (batch size, vocabulary size).
\<close>

definition decoder_shaped :: "('s, 'o, 'h) RNNSeq2Seq \<Rightarrow> bool" where
  "decoder_shaped self =
     (\<forall>inp h c. has_shape (fst (decoder self inp h c)) (length inp) (trg_vocab_size self))"

subsection \<open>Vocabulary of the proofs about the driver loop\<close>

text \<open>
  The entry that one iteration of the loop appends to the log of decoder calls.
\<close>

definition step_call ::
  "('s, 'o, 'h) RNNSeq2Seq \<Rightarrow> int tensor2 \<Rightarrow> real \<Rightarrow> 'h \<Rightarrow> nat \<Rightarrow> 'h loop_state
     \<Rightarrow> 'h decoder_call" where
  "step_call self trg tfr ctx t st =
     \<lparr>call_input = dec_input st, call_hidden = hidden st, call_context = ctx,
      call_output = fst (decoder self (dec_input st) (hidden st) ctx),
      next_input =
        (if rng_state st 0 < tfr then rows trg ! t
         else map argmax_row (rows (fst (decoder self (dec_input st) (hidden st) ctx))))\<rparr>"

text \<open>
  What one logged call satisfies when its iteration was iteration \<open>t\<close> and drew \<open>draw\<close>:
  the decoder received the context, the logged prediction is the decoder's, and the next
  input is the ground-truth row \<open>trg[t]\<close> when the draw is below the ratio, the row-wise
  argmax of the prediction otherwise.
\<close>

definition call_ok ::
  "('s, 'o, 'h) RNNSeq2Seq \<Rightarrow> int tensor2 \<Rightarrow> real \<Rightarrow> 'h \<Rightarrow> real \<Rightarrow> nat \<Rightarrow> 'h decoder_call
     \<Rightarrow> bool" where
  "call_ok self trg tfr ctx draw t c =
     (call_context c = ctx
    \<and> call_output c = fst (decoder self (call_input c) (call_hidden c) ctx)
    \<and> size1 (call_output c) \<noteq> 0
    \<and> next_input c =
        (if draw < tfr then rows trg ! t else map argmax_row (rows (call_output c))))"

text \<open>
  How the calls follow one another: call \<open>i\<close> receives the input chosen after call
  \<open>i - 1\<close> and the hidden state that call returned; the first receives \<open>inp\<close> and \<open>hid\<close>.
\<close>

definition call_linked ::
  "('s, 'o, 'h) RNNSeq2Seq \<Rightarrow> 'h \<Rightarrow> int vec \<Rightarrow> 'h \<Rightarrow> 'h decoder_call list \<Rightarrow> nat \<Rightarrow> bool" where
  "call_linked self ctx inp hid cs i =
     (call_input (cs ! i) = (if i = 0 then inp else next_input (cs ! (i - 1)))
    \<and> call_hidden (cs ! i) =
        (if i = 0 then hid
         else snd (decoder self (call_input (cs ! (i - 1))) (call_hidden (cs ! (i - 1))) ctx)))"

text \<open>
  Two loop states that differ at most in their random generators, whose draws fall on
  the same side of the teacher-forcing ratio.
\<close>

definition same_run :: "real \<Rightarrow> 'h loop_state \<Rightarrow> 'h loop_state \<Rightarrow> bool" where
  "same_run tfr st1 st2 =
     (dec_input st1 = dec_input st2 \<and> hidden st1 = hidden st2 \<and> outputs st1 = outputs st2
      \<and> calls st1 = calls st2
      \<and> (\<forall>n. (rng_state st1 n < tfr) = (rng_state st2 n < tfr)))"

text \<open>
  A small model for the examples below: the context is the source length, every
  prediction is \<open>[0, 1]\<close> for each token of the batch, and the hidden state adds the context.
\<close>

definition example_seq2seq :: "(int tensor2, unit, nat) RNNSeq2Seq" where
  "example_seq2seq =
     \<lparr>trg_vocab_size = 2,
      encoder = (\<lambda>src. ((), size0 src)),
      decoder = (\<lambda>inp h c. (Tensor2 2 (map (\<lambda>tok. [0, 1]) inp), h + c))\<rparr>"

definition example_src :: "int tensor2" where
  "example_src = Tensor2 1 [[1], [2]]"

definition example_trg :: "int tensor2" where
  "example_trg = Tensor2 1 [[5], [6], [7]]"

definition example_draws :: rng where
  "example_draws n = (if n = 0 then 1 / 5 else 9 / 10)"

definition constant_draws :: rng where
  "constant_draws n = 1 / 2"

text \<open>
  The state in which \<open>forward\<close> ends on the example, with ratio 1/2.
\<close>

definition example_final :: "nat loop_state" where
  "example_final =
     \<lparr>dec_input = [1], hidden = 6,
      outputs = [Tensor2 2 [[0, 0]], Tensor2 2 [[0, 1]], Tensor2 2 [[0, 1]]],
      rng_state = (\<lambda>n. example_draws (Suc (Suc n))),
      calls = [\<lparr>call_input = [5], call_hidden = 2, call_context = 2,
                 call_output = Tensor2 2 [[0, 1]], next_input = [6]\<rparr>,
               \<lparr>call_input = [6], call_hidden = 4, call_context = 2,
                 call_output = Tensor2 2 [[0, 1]], next_input = [1]\<rparr>]\<rparr>"

text \<open>A cell with one hidden unit and two inputs, and a batch of one, for the examples.\<close>

definition example_naive :: NaiveCustomRNN where
  "example_naive =
     \<lparr>NaiveCustomRNN.input_size = 2, NaiveCustomRNN.hidden_size = 1,
      W_xh = Tensor2 1 [[1], [2]], W_hh = Tensor2 1 [[3]], b_h = [-11],
      W_hq = Tensor2 1 [[5]], b_q = [7]\<rparr>"

definition example_X :: "real tensor2" where
  "example_X = Tensor2 2 [[1, 2]]"

definition example_H :: "real tensor2" where
  "example_H = Tensor2 1 [[2]]"

section \<open>examples/language_model/glove.py\<close>

text \<open>
  A tensor whose rank is known only when the script runs: rank 1 or rank 2. An
  elementwise operation on two of them broadcasts as the library does: a rank-1 tensor of
  length \<open>n\<close> meets a rank-2 tensor as a matrix of shape \<open>(1, n)\<close>.
\<close>

datatype tensor = T1 "real vec" | T2 "real tensor2"

definition broadcast :: "(real \<Rightarrow> real \<Rightarrow> real) \<Rightarrow> tensor \<Rightarrow> tensor \<Rightarrow> error + tensor" where
  "broadcast f a b =
     (case (a, b) of
        (T1 u, T1 v) \<Rightarrow>
          (case broadcast_dim (length u) (length v) of
             Some n \<Rightarrow> Inr (T1 (map2 f (expand_list n u) (expand_list n v)))
           | None \<Rightarrow> Inl (BroadcastShape 1 (length u) 1 (length v)))
      | (T1 u, T2 n) \<Rightarrow> and_then (elementwise f (unsqueeze0 u) n) (\<lambda>r. Inr (T2 r))
      | (T2 m, T1 v) \<Rightarrow> and_then (elementwise f m (unsqueeze0 v)) (\<lambda>r. Inr (T2 r))
      | (T2 m, T2 n) \<Rightarrow> and_then (elementwise f m n) (\<lambda>r. Inr (T2 r)))"

fun map_tensor :: "(real \<Rightarrow> real) \<Rightarrow> tensor \<Rightarrow> tensor" where
  "map_tensor f (T1 v) = T1 (map f v)"
| "map_tensor f (T2 m) = T2 (map_tensor2 f m)"

text \<open>
  \<open>torch.sum(t, dim=1)\<close>: the sums of the rows; a rank-1 tensor has no dimension 1.
\<close>

fun sum_dim1 :: "tensor \<Rightarrow> error + tensor" where
  "sum_dim1 (T1 v) = Inl IndexError"
| "sum_dim1 (T2 m) = Inr (T1 (map sum_list (rows m)))"

fun elements :: "tensor \<Rightarrow> real list" where
  "elements (T1 v) = v"
| "elements (T2 m) = concat (rows m)"

text \<open>
  \<open>.mean()\<close> over all the elements; on a tensor with no element it is not a number.
\<close>

datatype scalar = NaN | Value real

definition mean :: "tensor \<Rightarrow> scalar" where
  "mean t = (if elements t = [] then NaN
             else Value (sum_list (elements t) / real (length (elements t))))"

definition m_max :: real where
  "m_max = 100"

definition alpha :: real where
  "alpha = 3 / 4"

text \<open>
  The body of the training loop, lines 57 to 66, up to the value \<open>wavg_loss\<close> on which
  \<open>backward()\<close> is called. \<open>GloveModel\<close> and the data loader are not part of the sources at
  hand: what \<open>forward_w\<close> and \<open>forward_c\<close> return, and the counts of the batch, are the
  arguments. The gradient and the optimizer step belong to the tensor library.
\<close>

definition wavg_loss ::
  "tensor \<Rightarrow> tensor \<Rightarrow> tensor \<Rightarrow> tensor \<Rightarrow> tensor \<Rightarrow> error + scalar" where
  "wavg_loss word_embeds word_biases context_embeds context_biases counts =
     (let log_counts = map_tensor ln counts;
          weight_factor =
            map_tensor (\<lambda>x. min x 1)
              (map_tensor (\<lambda>x. x powr alpha) (map_tensor (\<lambda>c. c / m_max) counts))
      in and_then (broadcast (*) word_embeds context_embeds) (\<lambda>prod.
         and_then (sum_dim1 prod) (\<lambda>dots.
         and_then (broadcast (+) dots word_biases) (\<lambda>a.
         and_then (broadcast (+) a context_biases) (\<lambda>b.
         and_then (broadcast (-) b log_counts) (\<lambda>d.
         let loss = map_tensor (\<lambda>x. x ^ 2) d
         in and_then (broadcast (*) weight_factor loss) (\<lambda>weighted.
            Inr (mean weighted))))))))"

text \<open>
  The objective in the words of the specification: the loss of a sample is
  the square of \<open>dot(word_embed, context_embed) + word_bias + context_bias - log(count)\<close>,
  its weight is the smaller of 1 and \<open>count / 100\<close> to the power 0.75, and the objective of a batch is the mean over its samples of
  weight times loss.
\<close>

definition sample_loss :: "real vec \<Rightarrow> real \<Rightarrow> real vec \<Rightarrow> real \<Rightarrow> real \<Rightarrow> real" where
  "sample_loss word_embed word_bias context_embed context_bias cnt =
     (dot word_embed context_embed + word_bias + context_bias - ln cnt) ^ 2"

definition sample_weight :: "real \<Rightarrow> real" where
  "sample_weight cnt = min ((cnt / 100) powr (3 / 4)) 1"

definition batch_objective ::
  "real vec list \<Rightarrow> real list \<Rightarrow> real vec list \<Rightarrow> real list \<Rightarrow> real list \<Rightarrow> real" where
  "batch_objective word_embeds word_biases context_embeds context_biases counts =
     (\<Sum>i<length counts.
         sample_weight (counts ! i) *
         sample_loss (word_embeds ! i) (word_biases ! i) (context_embeds ! i)
           (context_biases ! i) (counts ! i))
     / real (length counts)"

text \<open>
  A bias tensor of shape (batch size, 1), the shape the comments of lines 51 and 54 give
  \<open>word_biases\<close> and \<open>context_biases\<close>.
\<close>

definition column :: "real list \<Rightarrow> tensor" where
  "column v = T2 (Tensor2 1 (map (\<lambda>x. [x]) v))"

text \<open>
  A batch of two samples with one-dimensional embeddings, for the evaluation below.
\<close>

definition failing_embeds :: "real tensor2" where
  "failing_embeds = Tensor2 1 [[1], [0]]"

subsection \<open>Writing the embeddings\<close>

text \<open>
  A written embedding file is the list of its lines, each a token and its vector; the
  file system maps a path to the file there.
\<close>

type_synonym embedding_file = "(string \<times> real vec) list"

type_synonym files = "string \<rightharpoonup> embedding_file"

text \<open>
  Modelled from the spec: \<open>save_pretrained\<close> of \<open>nlptoolkit.data.utils.utils\<close> is not part
  of the sources at hand. The specification says that it writes a plain-text embedding
  file pairing each vocabulary token with its embedding vector: token number \<open>i\<close> is
  paired with row \<open>i\<close> of the embeddings, and a vocabulary with more tokens than there are
  rows cannot be paired.
\<close>

definition save_pretrained ::
  "string list \<Rightarrow> real tensor2 \<Rightarrow> string \<Rightarrow> files \<Rightarrow> error + files" where
  "save_pretrained vocab embeds save_path fs =
     (if size0 embeds < length vocab then Inl IndexError
      else Inr (fs(save_path \<mapsto> zip vocab (rows embeds))))"

text \<open>
  Lines 73 and 74: the two embedding matrices are added and the sum is saved.
\<close>

definition save_combined_embeds ::
  "string list \<Rightarrow> real tensor2 \<Rightarrow> real tensor2 \<Rightarrow> files \<Rightarrow> error + files" where
  "save_combined_embeds vocab w_embeddings_weight c_embeddings_weight fs =
     and_then (elementwise (+) w_embeddings_weight c_embeddings_weight) (\<lambda>combined_embeds.
       save_pretrained vocab combined_embeds ''glove.vec'' fs)"

definition example_vocab :: "string list" where
  "example_vocab = [''the'', ''cat'']"

definition example_W :: "real tensor2" where
  "example_W = Tensor2 2 [[1, 2], [3, 4]]"

definition example_C :: "real tensor2" where
  "example_C = Tensor2 2 [[10, 20], [30, 40]]"

section \<open>Properties of the RNN cells\<close>

lemma and_then_simps:
  "and_then (Inl e) f = Inl e"
  "and_then (Inr x) f = f x"
  by (simp_all add: and_then_def)

lemma size_new_zeros:
  "size0 (new_zeros r c) = r"
  "size1 (new_zeros r c) = c"
  by (simp_all add: new_zeros_def size0_def)

lemma RNNCell_forward_shapes_agree:
  assumes "shapes_agree self input hx0"
  shows "RNNCell_forward fT fR self input hx0 =
     (let hx = (case hx0 of None \<Rightarrow> new_zeros (size0 input) (hidden_size self)
                         | Some h \<Rightarrow> h)
      in if nonlinearity self = ''tanh''
         then Inr (fT input hx (weight_ih self) (weight_hh self) (bias_ih self) (bias_hh self))
         else if nonlinearity self = ''relu''
         then Inr (fR input hx (weight_ih self) (weight_hh self) (bias_ih self) (bias_hh self))
         else Inl (UnknownNonlinearity (nonlinearity self)))"
  using assms
  by (cases hx0)
     (simp_all add: RNNCell_forward_def shapes_agree_def check_forward_input_def
        check_forward_hidden_def and_then_simps size_new_zeros Let_def)

lemma RNNCell_forward_shapes_disagree:
  assumes "\<not> shapes_agree self input hx0"
  shows "\<exists>e. RNNCell_forward fT fR self input hx0 = Inl e \<and> is_shape_check_error e"
  using assms
  by (cases hx0)
     (auto simp add: RNNCell_forward_def shapes_agree_def check_forward_input_def
        check_forward_hidden_def and_then_simps size_new_zeros Let_def)

text \<open>
  Claim C5, as stated: the unknown-nonlinearity error is raised if and only if the
  nonlinearity string is neither \<open>tanh\<close> nor \<open>relu\<close>. The shape checks run first, so
  on an input of the wrong width a cell with an unknown nonlinearity raises the
  input-size error instead.
\<close>

theorem C5_unknown_nonlinearity_counterexample:
  "nonlinearity (example_cell ''gelu'') \<noteq> ''tanh'' \<and>
   nonlinearity (example_cell ''gelu'') \<noteq> ''relu'' \<and>
   RNNCell_forward keep_hidden keep_hidden (example_cell ''gelu'') (Tensor2 3 [[1, 2, 3]]) None
     = Inl (InconsistentInputSize 3 2) \<and>
   RNNCell_forward keep_hidden keep_hidden (example_cell ''gelu'') (Tensor2 3 [[1, 2, 3]]) None
     \<noteq> Inl (UnknownNonlinearity ''gelu'')"
  by (simp add: RNNCell_forward_def check_forward_input_def and_then_simps example_cell_def)

text \<open>
  Claim C5, amended: provided the shape checks pass, \<open>RNNCell.forward\<close> raises the
  unknown-nonlinearity RuntimeError exactly when the nonlinearity is neither \<open>tanh\<close> nor
  \<open>relu\<close>; for \<open>tanh\<close> it returns what \<open>RNNTanhCell\<close> returns, for \<open>relu\<close> what
  \<open>RNNReLUCell\<close> returns, on the input, the hidden state (zeros when absent) and the
  cell's weights and biases. \<open>_get_activation_fn\<close> returns \<open>F.relu\<close> for \<open>relu\<close>,
  \<open>F.tanh\<close> for \<open>tanh\<close> and raises a RuntimeError for every other string.
\<close>

theorem C5_nonlinearity_dispatch:
  fixes fT fR :: "'r cell_fn"
  assumes "shapes_agree self input hx0"
  shows "(RNNCell_forward fT fR self input hx0 = Inl (UnknownNonlinearity (nonlinearity self))
            \<longleftrightarrow> nonlinearity self \<noteq> ''tanh'' \<and> nonlinearity self \<noteq> ''relu'')
    \<and> is_RuntimeError (UnknownNonlinearity (nonlinearity self))
    \<and> (nonlinearity self = ''tanh'' \<longrightarrow>
           RNNCell_forward fT fR self input hx0 =
             Inr (fT input
                    (case hx0 of None \<Rightarrow> new_zeros (size0 input) (hidden_size self)
                               | Some h \<Rightarrow> h)
                    (weight_ih self) (weight_hh self) (bias_ih self) (bias_hh self)))
    \<and> (nonlinearity self = ''relu'' \<longrightarrow>
           RNNCell_forward fT fR self input hx0 =
             Inr (fR input
                    (case hx0 of None \<Rightarrow> new_zeros (size0 input) (hidden_size self)
                               | Some h \<Rightarrow> h)
                    (weight_ih self) (weight_hh self) (bias_ih self) (bias_hh self)))
    \<and> get_activation_fn ''relu'' = Inr F_relu
    \<and> get_activation_fn ''tanh'' = Inr F_tanh
    \<and> (a \<noteq> ''relu'' \<and> a \<noteq> ''tanh'' \<longrightarrow>
           get_activation_fn a = Inl (ActivationShouldBe a) \<and>
           is_RuntimeError (ActivationShouldBe a))"
  using assms
  by (simp add: RNNCell_forward_shapes_agree get_activation_fn_def Let_def)

theorem C5_nonlinearity_dispatch_witness:
  "shapes_agree (example_cell ''gelu'') (Tensor2 2 [[1, 2]]) None
   \<and> RNNCell_forward keep_hidden keep_hidden (example_cell ''gelu'') (Tensor2 2 [[1, 2]]) None
       = Inl (UnknownNonlinearity ''gelu'')
   \<and> RNNCell_forward keep_hidden keep_hidden (example_cell ''tanh'') (Tensor2 2 [[1, 2]]) None
       = Inr (Tensor2 1 [[0]])
   \<and> get_activation_fn ''gelu'' = Inl (ActivationShouldBe ''gelu'')"
proof -
  have ok: "shapes_agree (example_cell nl) (Tensor2 2 [[1, 2]]) None" for nl
    by (simp add: shapes_agree_def example_cell_def)
  from C5_nonlinearity_dispatch [OF ok [of "''gelu''"],
         where fT = keep_hidden and fR = keep_hidden and a = "''gelu''"]
    C5_nonlinearity_dispatch [OF ok [of "''tanh''"],
         where fT = keep_hidden and fR = keep_hidden and a = "''gelu''"]
  show ?thesis using ok
    by (simp add: example_cell_def keep_hidden_def new_zeros_def size0_def)
qed

text \<open>
  Claim C6: with a hidden state provided, \<open>RNNCell.forward\<close> raises one of the
  shape-mismatch RuntimeErrors of \<open>check_forward_input\<close> and \<open>check_forward_hidden\<close> if
  and only if the input's width differs from \<open>input_size\<close>, or the hidden state's batch
  size differs from the input's, or the hidden state's width differs from \<open>hidden_size\<close>.
\<close>

theorem C6_shape_mismatch_iff:
  fixes fT fR :: "'r cell_fn"
  shows "(\<exists>e. RNNCell_forward fT fR self input (Some hx) = Inl e \<and> is_shape_check_error e
              \<and> is_RuntimeError e)
         \<longleftrightarrow> (size1 input \<noteq> input_size self \<or> size0 hx \<noteq> size0 input
              \<or> size1 hx \<noteq> hidden_size self)"
proof (cases "shapes_agree self input (Some hx)")
  case True
  then have "\<not> (\<exists>e. RNNCell_forward fT fR self input (Some hx) = Inl e
                  \<and> is_shape_check_error e \<and> is_RuntimeError e)"
    by (auto simp add: RNNCell_forward_shapes_agree)
  with True show ?thesis by (simp add: shapes_agree_def)
next
  case False
  from RNNCell_forward_shapes_disagree [OF False, of fT fR]
  obtain e where e: "RNNCell_forward fT fR self input (Some hx) = Inl e"
    "is_shape_check_error e" by blast
  then have "is_RuntimeError e" by (cases e) simp_all
  with e False show ?thesis by (auto simp add: shapes_agree_def)
qed

theorem C6_shape_mismatch_iff_witness:
  "(\<exists>e. RNNCell_forward keep_hidden keep_hidden (example_cell ''tanh'')
          (Tensor2 2 [[1, 2]]) (Some (Tensor2 3 [[0, 0, 0]])) = Inl e
        \<and> is_shape_check_error e \<and> is_RuntimeError e)
   \<and> \<not> (\<exists>e. RNNCell_forward keep_hidden keep_hidden (example_cell ''tanh'')
          (Tensor2 2 [[1, 2]]) (Some (Tensor2 1 [[0]])) = Inl e
        \<and> is_shape_check_error e \<and> is_RuntimeError e)"
  using C6_shape_mismatch_iff [of keep_hidden keep_hidden "example_cell ''tanh''"
          "Tensor2 2 [[1, 2]]" "Tensor2 3 [[0, 0, 0]]"]
        C6_shape_mismatch_iff [of keep_hidden keep_hidden "example_cell ''tanh''"
          "Tensor2 2 [[1, 2]]" "Tensor2 1 [[0]]"]
  by (simp add: example_cell_def size0_def)

text \<open>
  Claim C10: \<open>RNNCell.forward\<close> without a hidden state returns what it returns on the
  all-zeros hidden state of shape (batch, hidden_size), where batch is the input's first
  dimension; so does \<open>NaiveCustomRNN.forward\<close>.
\<close>

theorem C10_default_hidden_is_zeros:
  fixes fT fR :: "'r cell_fn"
  shows "RNNCell_forward fT fR self input None =
           RNNCell_forward fT fR self input
             (Some (new_zeros (size0 input) (hidden_size self)))
       \<and> NaiveCustomRNN_forward naive input None =
           NaiveCustomRNN_forward naive input
             (Some (new_zeros (size0 input) (NaiveCustomRNN.hidden_size naive)))"
  by (simp add: RNNCell_forward_def NaiveCustomRNN_forward_def)

section \<open>Properties of the sequence-to-sequence driver\<close>

lemma decode_step_Inr:
  assumes "decode_step self trg tfr ctx t st = Inr st'"
  shows "\<exists>outs. setitem (outputs st) t (fst (decoder self (dec_input st) (hidden st) ctx)) = Inr outs
     \<and> size1 (fst (decoder self (dec_input st) (hidden st) ctx)) \<noteq> 0
     \<and> st' = \<lparr>dec_input =
                (if rng_state st 0 < tfr then rows trg ! t
                 else map argmax_row (rows (fst (decoder self (dec_input st) (hidden st) ctx)))),
              hidden = snd (decoder self (dec_input st) (hidden st) ctx),
              outputs = outs,
              rng_state = (\<lambda>n. rng_state st (Suc n)),
              calls = calls st @
                [\<lparr>call_input = dec_input st, call_hidden = hidden st, call_context = ctx,
                  call_output = fst (decoder self (dec_input st) (hidden st) ctx),
                  next_input =
                    (if rng_state st 0 < tfr then rows trg ! t
                     else map argmax_row
                            (rows (fst (decoder self (dec_input st) (hidden st) ctx))))\<rparr>]\<rparr>"
  using assms
  by (auto simp add: decode_step_def and_then_def random_random_def argmax1_def Let_def
        split: prod.splits sum.splits if_splits)

lemma setitem_Inr:
  assumes "setitem outs t v = Inr outs'"
  shows "length outs' = length outs \<and> t < length outs \<and> (\<forall>i. i \<noteq> t \<longrightarrow> outs' ! i = outs ! i)"
  using assms
  by (auto simp add: setitem_def Let_def split: if_splits)

lemma decode_step_fields:
  assumes "decode_step self trg tfr ctx t st = Inr st'"
  shows "calls st' = calls st @ [step_call self trg tfr ctx t st]"
    and "dec_input st' = next_input (step_call self trg tfr ctx t st)"
    and "hidden st' = snd (decoder self (dec_input st) (hidden st) ctx)"
    and "rng_state st' = (\<lambda>n. rng_state st (Suc n))"
    and "setitem (outputs st) t (call_output (step_call self trg tfr ctx t st)) = Inr (outputs st')"
    and "size1 (call_output (step_call self trg tfr ctx t st)) \<noteq> 0"
  using decode_step_Inr [OF assms] by (auto simp add: step_call_def)

lemma decode_loop_Cons_Inr:
  assumes "decode_loop self trg tfr ctx (t # ts) st = Inr st'"
  obtains st1 where "decode_step self trg tfr ctx t st = Inr st1"
    and "decode_loop self trg tfr ctx ts st1 = Inr st'"
  using assms by (auto simp add: and_then_def split: sum.splits)

lemma step_call_ok:
  assumes "decode_step self trg tfr ctx t st = Inr st1"
  shows "call_ok self trg tfr ctx (rng_state st 0) t (step_call self trg tfr ctx t st)"
  using decode_step_fields(6) [OF assms] by (simp add: call_ok_def step_call_def)

lemma call_linked_Cons:
  assumes "call_linked self ctx (next_input c)
             (snd (decoder self (call_input c) (call_hidden c) ctx)) cs k"
  shows "call_linked self ctx inp hid (c # cs) (Suc k)"
  using assms by (cases k) (simp_all add: call_linked_def)

lemma decode_loop_calls:
  assumes "decode_loop self trg tfr ctx ts st = Inr st'"
  shows "\<exists>new. calls st' = calls st @ new \<and> length new = length ts
     \<and> dec_input st' = (if ts = [] then dec_input st else next_input (last new))
     \<and> (\<forall>i<length ts. call_ok self trg tfr ctx (rng_state st i) (ts ! i) (new ! i)
                     \<and> call_linked self ctx (dec_input st) (hidden st) new i)"
  using assms
proof (induction ts arbitrary: st)
  case Nil
  then show ?case by simp
next
  case (Cons t ts)
  from Cons.prems obtain st1 where
    s1: "decode_step self trg tfr ctx t st = Inr st1" and
    l1: "decode_loop self trg tfr ctx ts st1 = Inr st'"
    by (rule decode_loop_Cons_Inr)
  let ?c = "step_call self trg tfr ctx t st"
  note f = decode_step_fields [OF s1]
  from Cons.IH [OF l1] obtain new where
    n: "calls st' = calls st1 @ new" "length new = length ts"
       "dec_input st' = (if ts = [] then dec_input st1 else next_input (last new))"
    and a: "\<And>i. i < length ts \<Longrightarrow>
           call_ok self trg tfr ctx (rng_state st1 i) (ts ! i) (new ! i)
         \<and> call_linked self ctx (dec_input st1) (hidden st1) new i"
    by blast
  have c0: "call_input ?c = dec_input st" "call_hidden ?c = hidden st"
    by (simp_all add: step_call_def)
  have "calls st' = calls st @ (?c # new)" using n(1) f(1) by simp
  moreover have "length (?c # new) = length (t # ts)" using n(2) by simp
  moreover have "dec_input st' =
      (if t # ts = [] then dec_input st else next_input (last (?c # new)))"
    using n(2,3) f(2) by (cases new) auto
  moreover have "call_ok self trg tfr ctx (rng_state st i) ((t # ts) ! i) ((?c # new) ! i)
         \<and> call_linked self ctx (dec_input st) (hidden st) (?c # new) i"
    if i: "i < length (t # ts)" for i
  proof (cases i)
    case 0
    then show ?thesis using step_call_ok [OF s1] c0 by (simp add: call_linked_def)
  next
    case (Suc k)
    with i have k: "k < length ts" by simp
    from a [OF k] have ok: "call_ok self trg tfr ctx (rng_state st (Suc k)) (ts ! k) (new ! k)"
      and li: "call_linked self ctx (next_input ?c)
                 (snd (decoder self (call_input ?c) (call_hidden ?c) ctx)) new k"
      using f(2,3,4) c0 by simp_all
    from ok call_linked_Cons [OF li] show ?thesis unfolding Suc by simp
  qed
  ultimately show ?case by blast
qed

lemma decode_loop_outputs:
  assumes "decode_loop self trg tfr ctx ts st = Inr st'"
  shows "length (outputs st') = length (outputs st)
      \<and> (0 \<notin> set ts \<longrightarrow> outputs st' ! 0 = outputs st ! 0)"
  using assms
proof (induction ts arbitrary: st)
  case Nil
  then show ?case by simp
next
  case (Cons t ts)
  from Cons.prems obtain st1 where
    s1: "decode_step self trg tfr ctx t st = Inr st1" and
    l1: "decode_loop self trg tfr ctx ts st1 = Inr st'"
    by (rule decode_loop_Cons_Inr)
  from setitem_Inr [OF decode_step_fields(5) [OF s1]] Cons.IH [OF l1]
  show ?case by auto
qed

lemma decode_loop_rng:
  assumes "decode_loop self trg tfr ctx ts st = Inr st'"
  shows "rng_state st' = (\<lambda>n. rng_state st (n + length ts))"
  using assms
proof (induction ts arbitrary: st)
  case Nil
  then show ?case by simp
next
  case (Cons t ts)
  from Cons.prems obtain st1 where
    s1: "decode_step self trg tfr ctx t st = Inr st1" and
    l1: "decode_loop self trg tfr ctx ts st1 = Inr st'"
    by (rule decode_loop_Cons_Inr)
  from Cons.IH [OF l1] decode_step_fields(4) [OF s1]
  show ?case by simp
qed

lemma forward_state_Inr:
  assumes "forward_state self src trg tfr g = Inr st"
  shows "size0 trg \<noteq> 0"
    and "decode_loop self trg tfr (snd (encoder self src)) [1..<size0 trg]
           \<lparr>dec_input = rows trg ! 0, hidden = snd (encoder self src),
            outputs = replicate (size0 trg) (new_zeros (size1 trg) (trg_vocab_size self)),
            rng_state = g, calls = []\<rparr> = Inr st"
  using assms by (simp_all add: forward_state_def Let_def split: if_splits)

lemma forward_state_calls:
  assumes "forward_state self src trg tfr g = Inr st"
  shows "length (calls st) = size0 trg - 1"
    and "dec_input st = (if size0 trg = 1 then rows trg ! 0 else next_input (last (calls st)))"
    and "i < size0 trg - 1 \<Longrightarrow>
           call_ok self trg tfr (snd (encoder self src)) (g i) (Suc i) (calls st ! i)"
    and "i < size0 trg - 1 \<Longrightarrow>
           call_linked self (snd (encoder self src)) (rows trg ! 0) (snd (encoder self src))
             (calls st) i"
proof -
  note l = forward_state_Inr [OF assms]
  from decode_loop_calls [OF l(2)] obtain new where
    n: "calls st = new" "length new = size0 trg - 1"
       "dec_input st = (if [1..<size0 trg] = [] then rows trg ! 0 else next_input (last new))"
    and a: "\<And>i. i < size0 trg - 1 \<Longrightarrow>
           call_ok self trg tfr (snd (encoder self src)) (g i) ([1..<size0 trg] ! i) (new ! i)
         \<and> call_linked self (snd (encoder self src)) (rows trg ! 0) (snd (encoder self src))
              new i"
    by auto
  show "length (calls st) = size0 trg - 1" using n by simp
  show "dec_input st = (if size0 trg = 1 then rows trg ! 0 else next_input (last (calls st)))"
    using n l(1) by (auto simp add: le_Suc_eq)
  show "call_ok self trg tfr (snd (encoder self src)) (g i) (Suc i) (calls st ! i)"
    if "i < size0 trg - 1"
    using a [OF that] that n(1) by simp
  show "call_linked self (snd (encoder self src)) (rows trg ! 0) (snd (encoder self src))
             (calls st) i" if "i < size0 trg - 1"
    using a [OF that] n(1) by simp
qed

lemma forward_state_outputs:
  assumes "forward_state self src trg tfr g = Inr st"
  shows "length (outputs st) = size0 trg"
    and "outputs st ! 0 = new_zeros (size1 trg) (trg_vocab_size self)"
proof -
  note l = forward_state_Inr [OF assms]
  from decode_loop_outputs [OF l(2)] l(1)
  show "length (outputs st) = size0 trg"
    and "outputs st ! 0 = new_zeros (size1 trg) (trg_vocab_size self)"
    by simp_all
qed

lemma length_expand: "length (expand r c m) = r"
  by (simp add: expand_def expand_list_def)

lemma setitem_shaped:
  assumes "t < length outs" "size0 v = size0 (outs ! t)" "size1 v = size1 (outs ! t)"
  shows "\<exists>outs'. setitem outs t v = Inr outs' \<and> length outs' = length outs
     \<and> (\<forall>i<length outs. size0 (outs' ! i) = size0 (outs ! i) \<and> size1 (outs' ! i) = size1 (outs ! i))"
  using assms
  by (auto simp add: setitem_def Let_def nth_list_update size0_def length_expand)

lemma decode_step_succeeds:
  assumes "decoder_shaped self" "0 < trg_vocab_size self" "t < length (outputs st)"
    and "\<forall>i<length (outputs st). size0 (outputs st ! i) = b
            \<and> size1 (outputs st ! i) = trg_vocab_size self"
    and "length (dec_input st) = b" "length (rows trg ! t) = b"
  shows "\<exists>st'. decode_step self trg tfr ctx t st = Inr st'
     \<and> length (outputs st') = length (outputs st)
     \<and> (\<forall>i<length (outputs st'). size0 (outputs st' ! i) = b
            \<and> size1 (outputs st' ! i) = trg_vocab_size self)
     \<and> length (dec_input st') = b"
proof -
  let ?out = "fst (decoder self (dec_input st) (hidden st) ctx)"
  from assms(1,5) have sh: "size0 ?out = b" "size1 ?out = trg_vocab_size self"
    by (simp_all add: decoder_shaped_def has_shape_def)
  from assms(3,4) sh have "size0 ?out = size0 (outputs st ! t)"
    "size1 ?out = size1 (outputs st ! t)" by simp_all
  from setitem_shaped [OF assms(3) this] obtain outs' where
    o: "setitem (outputs st) t ?out = Inr outs'" "length outs' = length (outputs st)"
    "\<forall>i<length (outputs st). size0 (outs' ! i) = size0 (outputs st ! i)
        \<and> size1 (outs' ! i) = size1 (outputs st ! i)" by blast
  have am: "argmax1 ?out = Inr (map argmax_row (rows ?out))"
    using sh(2) assms(2) by (simp add: argmax1_def)
  have len: "length (map argmax_row (rows ?out)) = b"
    using sh(1) by (simp add: size0_def)
  show ?thesis
    using o assms(4,6) am len
    by (simp add: decode_step_def and_then_simps random_random_def Let_def case_prod_beta)
qed

lemma decode_loop_succeeds:
  assumes "decoder_shaped self" "0 < trg_vocab_size self"
    and "\<forall>t\<in>set ts. t < length (outputs st) \<and> length (rows trg ! t) = b"
    and "\<forall>i<length (outputs st). size0 (outputs st ! i) = b
            \<and> size1 (outputs st ! i) = trg_vocab_size self"
    and "length (dec_input st) = b"
  shows "\<exists>st'. decode_loop self trg tfr ctx ts st = Inr st'"
  using assms(3,4,5)
proof (induction ts arbitrary: st)
  case Nil
  then show ?case by simp
next
  case (Cons t ts)
  from Cons.prems have t: "t < length (outputs st)" "length (rows trg ! t) = b" by simp_all
  from decode_step_succeeds [OF assms(1,2) t(1) Cons.prems(2,3) t(2), of tfr ctx]
  obtain st1 where s: "decode_step self trg tfr ctx t st = Inr st1"
    "length (outputs st1) = length (outputs st)"
    "\<forall>i<length (outputs st1). size0 (outputs st1 ! i) = b
            \<and> size1 (outputs st1 ! i) = trg_vocab_size self"
    "length (dec_input st1) = b" by blast
  from Cons.prems(1) s(2)
  have "\<forall>t\<in>set ts. t < length (outputs st1) \<and> length (rows trg ! t) = b" by simp
  from Cons.IH [OF this s(3,4)] s(1) show ?case by (simp add: and_then_simps)
qed

lemma forward_state_succeeds:
  assumes "decoder_shaped self" "0 < trg_vocab_size self" "0 < size0 trg" "wf_tensor2 trg"
  shows "\<exists>st. forward_state self src trg tfr g = Inr st"
proof -
  let ?st0 = "\<lparr>dec_input = rows trg ! 0, hidden = snd (encoder self src),
            outputs = replicate (size0 trg) (new_zeros (size1 trg) (trg_vocab_size self)),
            rng_state = g, calls = []\<rparr>"
  from assms(4) have w: "\<And>t. t < size0 trg \<Longrightarrow> length (rows trg ! t) = size1 trg"
    by (simp add: wf_tensor2_def list_all_length size0_def)
  have a: "\<forall>t\<in>set [1..<size0 trg]. t < length (outputs ?st0)
             \<and> length (rows trg ! t) = size1 trg" using w by simp
  have b: "\<forall>i<length (outputs ?st0). size0 (outputs ?st0 ! i) = size1 trg
            \<and> size1 (outputs ?st0 ! i) = trg_vocab_size self"
    by (simp add: size_new_zeros)
  have c: "length (dec_input ?st0) = size1 trg" using w assms(3) by simp
  from decode_loop_succeeds [OF assms(1,2) a b c, of tfr "snd (encoder self src)"] assms(3)
  show ?thesis by (simp add: forward_state_def Let_def)
qed

lemma decode_step_same_run:
  assumes "same_run tfr st1 st2"
  shows "rel_sum (=) (same_run tfr) (decode_step self trg tfr ctx t st1)
           (decode_step self trg tfr ctx t st2)"
proof -
  let ?out = "fst (decoder self (dec_input st2) (hidden st2) ctx)"
  from assms have eq: "dec_input st1 = dec_input st2" "hidden st1 = hidden st2"
    "outputs st1 = outputs st2" "calls st1 = calls st2"
    and d: "\<And>n. (rng_state st1 n < tfr) = (rng_state st2 n < tfr)"
    by (simp_all add: same_run_def)
  show ?thesis
  proof (cases "setitem (outputs st2) t ?out")
    case (Inl e)
    then show ?thesis
      by (simp add: decode_step_def eq and_then_simps case_prod_beta)
  next
    case (Inr outs)
    show ?thesis
    proof (cases "argmax1 ?out")
      case (Inl e)
      then show ?thesis using Inr
        by (simp add: decode_step_def eq and_then_simps case_prod_beta random_random_def)
    next
      case (Inr top1)
      then show ?thesis using \<open>setitem (outputs st2) t ?out = Inr outs\<close> d
        by (simp add: decode_step_def eq and_then_simps case_prod_beta random_random_def
              same_run_def Let_def)
    qed
  qed
qed

lemma decode_loop_same_run:
  assumes "same_run tfr st1 st2"
  shows "rel_sum (=) (same_run tfr) (decode_loop self trg tfr ctx ts st1)
           (decode_loop self trg tfr ctx ts st2)"
  using assms
proof (induction ts arbitrary: st1 st2)
  case Nil
  then show ?case by simp
next
  case (Cons t ts)
  note step = decode_step_same_run [OF Cons.prems, of self trg ctx t]
  show ?case
  proof (cases "decode_step self trg tfr ctx t st1")
    case (Inl e)
    with step show ?thesis
      by (cases "decode_step self trg tfr ctx t st2") (simp_all add: and_then_simps)
  next
    case (Inr s1)
    with step obtain s2 where s2: "decode_step self trg tfr ctx t st2 = Inr s2"
      "same_run tfr s1 s2"
      by (cases "decode_step self trg tfr ctx t st2") simp_all
    from Cons.IH [OF s2(2)] Inr s2(1) show ?thesis by (simp add: and_then_simps)
  qed
qed

lemma forward_state_same_run:
  assumes "\<forall>n. (g1 n < tfr) = (g2 n < tfr)"
  shows "rel_sum (=) (same_run tfr) (forward_state self src trg tfr g1)
           (forward_state self src trg tfr g2)"
proof (cases "size0 trg = 0")
  case True
  then show ?thesis by (simp add: forward_state_def)
next
  case False
  have "same_run tfr
     \<lparr>dec_input = rows trg ! 0, hidden = snd (encoder self src),
      outputs = replicate (size0 trg) (new_zeros (size1 trg) (trg_vocab_size self)),
      rng_state = g1, calls = []\<rparr>
     \<lparr>dec_input = rows trg ! 0, hidden = snd (encoder self src),
      outputs = replicate (size0 trg) (new_zeros (size1 trg) (trg_vocab_size self)),
      rng_state = g2, calls = []\<rparr>"
    using assms by (simp add: same_run_def)
  from decode_loop_same_run [OF this] False
  show ?thesis by (simp add: forward_state_def Let_def)
qed

lemma same_run_observed:
  assumes "rel_sum (=) (same_run tfr) r1 r2"
  shows "and_then r1 (\<lambda>st. Inr (outputs st)) = and_then r2 (\<lambda>st. Inr (outputs st))"
    and "and_then r1 (\<lambda>st. Inr (calls st)) = and_then r2 (\<lambda>st. Inr (calls st))"
  using assms by (cases r1; cases r2; simp add: and_then_simps same_run_def)+

lemma example_draws_simps:
  "example_draws 0 = 1 / 5" "example_draws (Suc 0) = 9 / 10"
  by (simp_all add: example_draws_def)

lemma upt_1_3: "[1..<3] = [1, 2]"
  by (simp add: upt_rec)

lemma example_run:
  "forward_state example_seq2seq example_src example_trg (1 / 2) example_draws =
     Inr example_final"
  by (simp add: example_final_def forward_state_def example_seq2seq_def example_trg_def example_src_def
        example_draws_simps size0_def upt_1_3
        Let_def decode_step_def and_then_simps setitem_def new_zeros_def expand_def
        expand_list_def random_random_def argmax1_def argmax_row_def numeral_2_eq_2)

lemma argmax_from_greatest:
  assumes "length pre = i" "best < i" "pre ! best = bv" "\<forall>x\<in>set pre. x \<le> bv"
  shows "argmax_from best bv i xs < length (pre @ xs)
       \<and> (\<forall>x\<in>set (pre @ xs). x \<le> (pre @ xs) ! argmax_from best bv i xs)"
  using assms
proof (induction xs arbitrary: pre i best bv)
  case Nil
  then show ?case by simp
next
  case (Cons x xs)
  show ?case
  proof (cases "bv < x")
    case True
    have "length (pre @ [x]) = Suc i" "i < Suc i" "(pre @ [x]) ! i = x"
      "\<forall>y\<in>set (pre @ [x]). y \<le> x"
      using Cons.prems True by (auto simp add: nth_append)
    from Cons.IH [OF this] True show ?thesis by simp
  next
    case False
    have "length (pre @ [x]) = Suc i" "best < Suc i" "(pre @ [x]) ! best = bv"
      "\<forall>y\<in>set (pre @ [x]). y \<le> bv"
      using Cons.prems False by (auto simp add: nth_append)
    from Cons.IH [OF this] False show ?thesis by simp
  qed
qed

lemma argmax_row_greatest:
  assumes "r \<noteq> []"
  shows "0 \<le> argmax_row r \<and> nat (argmax_row r) < length r
       \<and> (\<forall>x\<in>set r. x \<le> r ! nat (argmax_row r))"
proof -
  from assms obtain x xs where r: "r = x # xs" by (cases r) auto
  from argmax_from_greatest [of "[x]" 1 0 x xs]
  show ?thesis by (simp add: r argmax_row_def)
qed

lemma example_shaped: "decoder_shaped example_seq2seq"
  by (simp add: decoder_shaped_def example_seq2seq_def has_shape_def size0_def
        wf_tensor2_def list_all_iff)

lemma example_wf: "wf_tensor2 example_trg" "size0 example_trg = 3" "size1 example_trg = 1"
  by (simp_all add: example_trg_def wf_tensor2_def size0_def)

lemma example_draws_range: "\<forall>n. 0 \<le> example_draws n \<and> example_draws n < 1"
  by (simp add: example_draws_def)

lemma constant_draws_range: "\<forall>n. 0 \<le> constant_draws n \<and> constant_draws n < 1"
  by (simp add: constant_draws_def)

text \<open>
  Claim C2: \<open>RNNSeq2Seq.forward\<close> makes \<open>trg_len - 1\<close> decoder calls; the first receives
  the encoder's final hidden state (the context) as its hidden state, and every call
  receives that same context as its context argument. With a decoder whose predictions
  have the shape (batch, vocabulary), a non-empty vocabulary and a well-formed, non-empty
  target, \<open>forward\<close> does return.
\<close>

theorem C2_context_passed_unchanged:
  "(decoder_shaped self \<and> 0 < trg_vocab_size self \<and> 0 < size0 trg \<and> wf_tensor2 trg
      \<longrightarrow> (\<exists>st. forward_state self src trg tfr g = Inr st))
   \<and> (\<forall>st. forward_state self src trg tfr g = Inr st \<longrightarrow>
         length (calls st) = size0 trg - 1
       \<and> (\<forall>i<size0 trg - 1. call_context (calls st ! i) = snd (encoder self src))
       \<and> (1 < size0 trg \<longrightarrow> call_hidden (calls st ! 0) = snd (encoder self src)))"
proof -
  have "length (calls st) = size0 trg - 1
       \<and> (\<forall>i<size0 trg - 1. call_context (calls st ! i) = snd (encoder self src))
       \<and> (1 < size0 trg \<longrightarrow> call_hidden (calls st ! 0) = snd (encoder self src))"
    if r: "forward_state self src trg tfr g = Inr st" for st
  proof -
    have "call_hidden (calls st ! 0) = snd (encoder self src)" if "1 < size0 trg"
    proof -
      from that have "0 < size0 trg - 1" by simp
      from forward_state_calls(4) [OF r this] show ?thesis by (simp add: call_linked_def)
    qed
    moreover have "call_context (calls st ! i) = snd (encoder self src)"
      if "i < size0 trg - 1" for i
      using forward_state_calls(3) [OF r that] by (simp add: call_ok_def)
    ultimately show ?thesis using forward_state_calls(1) [OF r] by blast
  qed
  then show ?thesis using forward_state_succeeds [of self trg src tfr g] by blast
qed

theorem C2_context_passed_unchanged_witness:
  "decoder_shaped example_seq2seq \<and> wf_tensor2 example_trg
   \<and> forward_state example_seq2seq example_src example_trg (1 / 2) example_draws
       = Inr example_final
   \<and> length (calls example_final) = size0 example_trg - 1
   \<and> call_context (calls example_final ! 0) = snd (encoder example_seq2seq example_src)
   \<and> call_context (calls example_final ! 1) = snd (encoder example_seq2seq example_src)
   \<and> call_hidden (calls example_final ! 0) = snd (encoder example_seq2seq example_src)
   \<and> snd (encoder example_seq2seq example_src) = 2"
  using C2_context_passed_unchanged
          [of example_seq2seq example_trg example_src "1 / 2" example_draws]
    example_shaped example_wf example_run
  by (simp add: example_seq2seq_def example_src_def size0_def)

text \<open>
  Claim C3: at every step \<open>t\<close> from 1 to \<open>trg_len - 1\<close>, the input chosen for the next
  decoder call is the ground-truth row \<open>trg[t]\<close> when the step's random draw is strictly
  below \<open>teacher_forcing_ratio\<close>, and otherwise the row-wise argmax of the prediction the
  decoder returned at step \<open>t\<close>; the next call (or, after the last step, the variable
  \<open>input\<close>) holds exactly that choice. The argmax of a row is an index of a greatest entry.
\<close>

theorem C3_teacher_forcing_choice:
  assumes "forward_state self src trg tfr g = Inr st" and "1 \<le> t" and "t < size0 trg"
  shows "call_output (calls st ! (t - 1)) =
           fst (decoder self (call_input (calls st ! (t - 1))) (call_hidden (calls st ! (t - 1)))
                  (snd (encoder self src)))
       \<and> argmax1 (call_output (calls st ! (t - 1))) =
           Inr (map argmax_row (rows (call_output (calls st ! (t - 1)))))
       \<and> next_input (calls st ! (t - 1)) =
           (if g (t - 1) < tfr then rows trg ! t
            else map argmax_row (rows (call_output (calls st ! (t - 1)))))
       \<and> (if Suc t < size0 trg then call_input (calls st ! t) else dec_input st)
           = next_input (calls st ! (t - 1))
       \<and> call_input (calls st ! 0) = rows trg ! 0
       \<and> list_all (\<lambda>r. list_all (\<lambda>x. x \<le> r ! nat (argmax_row r)) r)
            (rows (call_output (calls st ! (t - 1))))"
proof -
  let ?c = "calls st ! (t - 1)"
  let ?ctx = "snd (encoder self src)"
  from assms(2,3) have i: "t - 1 < size0 trg - 1" by simp
  from forward_state_calls(3) [OF assms(1) i] assms(2)
  have ok: "call_ok self trg tfr ?ctx (g (t - 1)) t ?c" by simp
  then have out: "call_output ?c = fst (decoder self (call_input ?c) (call_hidden ?c) ?ctx)"
    and nz: "size1 (call_output ?c) \<noteq> 0"
    and nx: "next_input ?c = (if g (t - 1) < tfr then rows trg ! t
            else map argmax_row (rows (call_output ?c)))"
    unfolding call_ok_def by blast+
  have am: "argmax1 (call_output ?c) = Inr (map argmax_row (rows (call_output ?c)))"
    using nz by (simp add: argmax1_def)
  have first: "call_input (calls st ! 0) = rows trg ! 0"
  proof -
    from assms(2,3) have "0 < size0 trg - 1" by simp
    from forward_state_calls(4) [OF assms(1) this] show ?thesis by (simp add: call_linked_def)
  qed
  have link: "(if Suc t < size0 trg then call_input (calls st ! t) else dec_input st)
           = next_input ?c"
  proof (cases "Suc t < size0 trg")
    case True
    then have "t < size0 trg - 1" by simp
    from forward_state_calls(4) [OF assms(1) this] assms(2) True show ?thesis
      by (simp add: call_linked_def)
  next
    case False
    with assms(3) have e: "size0 trg = Suc t" by simp
    from forward_state_calls(1) [OF assms(1)] e assms(2)
    have "calls st \<noteq> []" "length (calls st) - 1 = t - 1" by auto
    then have "last (calls st) = ?c" by (simp add: last_conv_nth)
    with forward_state_calls(2) [OF assms(1)] e assms(2) False show ?thesis by simp
  qed
  have gr: "list_all (\<lambda>r. list_all (\<lambda>x. x \<le> r ! nat (argmax_row r)) r) rs" for rs
  proof -
    have "list_all (\<lambda>x. x \<le> r ! nat (argmax_row r)) r" for r :: "real list"
    proof (cases "r = []")
      case True
      then show ?thesis by simp
    next
      case False
      from argmax_row_greatest [OF False] show ?thesis by (simp add: list_all_iff)
    qed
    then show ?thesis by (simp add: list_all_iff)
  qed
  show ?thesis
    by (intro conjI) (rule out am nx link first gr)+
qed

theorem C3_teacher_forcing_choice_witness:
  "forward_state example_seq2seq example_src example_trg (1 / 2) example_draws
     = Inr example_final
   \<and> size0 example_trg = 3
   \<and> example_draws 0 < 1 / 2
   \<and> next_input (calls example_final ! 0) = rows example_trg ! 1
   \<and> call_input (calls example_final ! 1) = next_input (calls example_final ! 0)
   \<and> \<not> example_draws 1 < 1 / 2
   \<and> next_input (calls example_final ! 1) =
       map argmax_row (rows (call_output (calls example_final ! 1)))
   \<and> dec_input example_final = next_input (calls example_final ! 1)"
proof -
  have t1: "1 \<le> (1::nat)" "(1::nat) < size0 example_trg"
    and t2: "1 \<le> (2::nat)" "(2::nat) < size0 example_trg"
    by (simp_all add: example_wf)
  have d: "example_draws 0 < 1 / 2" "\<not> example_draws 1 < 1 / 2"
    by (simp_all add: example_draws_def)
  from C3_teacher_forcing_choice [OF example_run t1]
       C3_teacher_forcing_choice [OF example_run t2] d example_run
  show ?thesis by (simp add: example_wf)
qed

text \<open>
  Claim C8: the tensor \<open>RNNSeq2Seq.forward\<close> returns has \<open>trg_len\<close> slices, and its slice
  0 is the all-zeros matrix of shape (batch, vocabulary) it was initialised with: the loop
  starts at 1 and writes slice \<open>t\<close> only.
\<close>

theorem C8_first_slice_zero:
  "(decoder_shaped self \<and> 0 < trg_vocab_size self \<and> 0 < size0 trg \<and> wf_tensor2 trg
      \<longrightarrow> (\<exists>outs. RNNSeq2Seq_forward self src trg tfr g = Inr outs))
   \<and> (\<forall>outs. RNNSeq2Seq_forward self src trg tfr g = Inr outs \<longrightarrow>
         0 < size0 trg \<and> length outs = size0 trg
       \<and> outs ! 0 = new_zeros (size1 trg) (trg_vocab_size self)
       \<and> has_shape (outs ! 0) (size1 trg) (trg_vocab_size self)
       \<and> list_all (list_all (\<lambda>x. x = 0)) (rows (outs ! 0)))"
proof (rule conjI)
  show "decoder_shaped self \<and> 0 < trg_vocab_size self \<and> 0 < size0 trg \<and> wf_tensor2 trg
      \<longrightarrow> (\<exists>outs. RNNSeq2Seq_forward self src trg tfr g = Inr outs)"
  proof
    assume "decoder_shaped self \<and> 0 < trg_vocab_size self \<and> 0 < size0 trg \<and> wf_tensor2 trg"
    then have "decoder_shaped self" "0 < trg_vocab_size self" "0 < size0 trg" "wf_tensor2 trg"
      by simp_all
    from forward_state_succeeds [OF this]
    obtain st where "forward_state self src trg tfr g = Inr st" by blast
    then show "\<exists>outs. RNNSeq2Seq_forward self src trg tfr g = Inr outs"
      by (simp add: RNNSeq2Seq_forward_def and_then_simps)
  qed
next
  show "\<forall>outs. RNNSeq2Seq_forward self src trg tfr g = Inr outs \<longrightarrow>
         0 < size0 trg \<and> length outs = size0 trg
       \<and> outs ! 0 = new_zeros (size1 trg) (trg_vocab_size self)
       \<and> has_shape (outs ! 0) (size1 trg) (trg_vocab_size self)
       \<and> list_all (list_all (\<lambda>x. x = 0)) (rows (outs ! 0))"
  proof (intro allI impI)
    fix outs
    assume r: "RNNSeq2Seq_forward self src trg tfr g = Inr outs"
    then obtain st where st: "forward_state self src trg tfr g = Inr st" "outs = outputs st"
      by (cases "forward_state self src trg tfr g")
         (auto simp add: RNNSeq2Seq_forward_def and_then_simps)
    have z: "has_shape (new_zeros r c) r c"
      "list_all (list_all (\<lambda>x. x = 0)) (rows (new_zeros r c))" for r c
      by (simp_all add: new_zeros_def has_shape_def size0_def wf_tensor2_def list_all_iff)
    from forward_state_Inr(1) [OF st(1)] forward_state_outputs [OF st(1)] st(2) z
    show "0 < size0 trg \<and> length outs = size0 trg
       \<and> outs ! 0 = new_zeros (size1 trg) (trg_vocab_size self)
       \<and> has_shape (outs ! 0) (size1 trg) (trg_vocab_size self)
       \<and> list_all (list_all (\<lambda>x. x = 0)) (rows (outs ! 0))"
      by simp
  qed
qed

theorem C8_first_slice_zero_witness:
  "decoder_shaped example_seq2seq \<and> wf_tensor2 example_trg
   \<and> RNNSeq2Seq_forward example_seq2seq example_src example_trg (1 / 2) example_draws =
       Inr (outputs example_final)
   \<and> outputs example_final ! 0 = new_zeros (size1 example_trg) (trg_vocab_size example_seq2seq)
   \<and> outputs example_final ! 0 = Tensor2 2 [[0, 0]]"
proof -
  have r: "RNNSeq2Seq_forward example_seq2seq example_src example_trg (1 / 2) example_draws =
       Inr (outputs example_final)"
    by (simp add: RNNSeq2Seq_forward_def example_run and_then_simps)
  from C8_first_slice_zero [of example_seq2seq example_trg example_src "1 / 2" example_draws]
    r example_shaped example_wf
  show ?thesis by (simp add: example_final_def)
qed

text \<open>
  Claim C9: with draws in [0, 1), when \<open>teacher_forcing_ratio \<ge> 1\<close> two runs on any two draw
  sequences make the same decoder calls and return the same result, and every next input
  is the ground-truth row; when \<open>teacher_forcing_ratio \<le> 0\<close> the same holds with every next
  input the argmax of the decoder's own prediction.
\<close>

theorem C9_draws_irrelevant_at_extremes:
  assumes "\<forall>n. 0 \<le> g1 n \<and> g1 n < 1" and "\<forall>n. 0 \<le> g2 n \<and> g2 n < 1"
    and "1 \<le> tfr \<or> tfr \<le> 0"
  shows "and_then (forward_state self src trg tfr g1) (\<lambda>st. Inr (calls st)) =
         and_then (forward_state self src trg tfr g2) (\<lambda>st. Inr (calls st))
       \<and> RNNSeq2Seq_forward self src trg tfr g1 = RNNSeq2Seq_forward self src trg tfr g2
       \<and> (\<forall>st i. forward_state self src trg tfr g1 = Inr st \<and> i < length (calls st) \<longrightarrow>
             next_input (calls st ! i) =
               (if 1 \<le> tfr then rows trg ! Suc i
                else map argmax_row (rows (call_output (calls st ! i)))))"
proof -
  have d1: "(g1 n < tfr) = (1 \<le> tfr)" for n
    using assms(1,3) by (metis less_le_trans not_less order.strict_trans2 le_less_trans)
  have d2: "(g2 n < tfr) = (1 \<le> tfr)" for n
    using assms(2,3) by (metis less_le_trans not_less order.strict_trans2 le_less_trans)
  have "\<forall>n. (g1 n < tfr) = (g2 n < tfr)" using d1 d2 by simp
  note rel = forward_state_same_run [OF this, of self src trg]
  note obs = same_run_observed [OF rel]
  have nx: "next_input (calls st ! i) =
               (if 1 \<le> tfr then rows trg ! Suc i
                else map argmax_row (rows (call_output (calls st ! i))))"
    if r: "forward_state self src trg tfr g1 = Inr st" and i: "i < length (calls st)" for st i
  proof -
    from i forward_state_calls(1) [OF r] have "i < size0 trg - 1" by simp
    from forward_state_calls(3) [OF r this]
    have "next_input (calls st ! i) =
        (if g1 i < tfr then rows trg ! Suc i
         else map argmax_row (rows (call_output (calls st ! i))))"
      unfolding call_ok_def by blast
    then show ?thesis by (simp add: d1)
  qed
  show ?thesis
    using obs nx by (simp add: RNNSeq2Seq_forward_def)
qed

theorem C9_draws_irrelevant_at_extremes_witness:
  "(\<forall>n. 0 \<le> example_draws n \<and> example_draws n < 1)
   \<and> (\<forall>n. 0 \<le> constant_draws n \<and> constant_draws n < 1)
   \<and> example_draws 1 \<noteq> constant_draws 1
   \<and> RNNSeq2Seq_forward example_seq2seq example_src example_trg 1 example_draws =
       RNNSeq2Seq_forward example_seq2seq example_src example_trg 1 constant_draws
   \<and> RNNSeq2Seq_forward example_seq2seq example_src example_trg 0 example_draws =
       RNNSeq2Seq_forward example_seq2seq example_src example_trg 0 constant_draws"
proof -
  have a: "(1::real) \<le> 1 \<or> (1::real) \<le> 0" and b: "(1::real) \<le> 0 \<or> (0::real) \<le> 0"
    by simp_all
  have c: "example_draws 1 \<noteq> constant_draws 1"
    by (simp add: example_draws_def constant_draws_def)
  from C9_draws_irrelevant_at_extremes [OF example_draws_range constant_draws_range a,
         of example_seq2seq example_src example_trg]
       C9_draws_irrelevant_at_extremes [OF example_draws_range constant_draws_range b,
         of example_seq2seq example_src example_trg]
       example_draws_range constant_draws_range c
  show ?thesis by blast
qed

section \<open>NaiveCustomRNN computes the Elman cell\<close>

lemma has_shape_nth:
  assumes "has_shape m r c" "i < r"
  shows "length (rows m ! i) = c"
  using assms by (simp add: has_shape_def wf_tensor2_def list_all_length size0_def)

lemma has_shapeI:
  assumes "length rs = r" "\<And>i. i < r \<Longrightarrow> length (rs ! i) = c"
  shows "has_shape (Tensor2 c rs) r c"
  using assms by (simp add: has_shape_def wf_tensor2_def list_all_length size0_def)

lemma dot_sum:
  assumes "length u = length v"
  shows "dot u v = (\<Sum>l<length u. u ! l * v ! l)"
proof -
  have "dot u v = (\<Sum>l = 0..<length (map2 (*) u v). map2 (*) u v ! l)"
    unfolding dot_def by (rule sum_list_sum_nth)
  also have "\<dots> = (\<Sum>l = 0..<length u. u ! l * v ! l)"
    using assms by (intro sum.cong) simp_all
  finally show ?thesis by (simp add: atLeast0LessThan)
qed

lemma mm_shaped:
  assumes "has_shape a r k" "has_shape b k c"
  shows "\<exists>m. mm a b = Inr m \<and> has_shape m r c
     \<and> (\<forall>i<r. \<forall>j<c. entry m i j = (\<Sum>l<k. entry a i l * entry b l j))"
proof -
  let ?m = "Tensor2 (size1 b) (map (\<lambda>r. map (\<lambda>j. dot r (col b j)) [0..<size1 b]) (rows a))"
  from assms have s: "size0 a = r" "size1 a = k" "size0 b = k" "size1 b = c"
    by (simp_all add: has_shape_def)
  then have e: "mm a b = Inr ?m" by (simp add: mm_def)
  have sh: "has_shape ?m r c"
    unfolding s(4) using s(1) by (intro has_shapeI) (simp_all add: size0_def)
  have "entry ?m i j = (\<Sum>l<k. entry a i l * entry b l j)" if i: "i < r" and j: "j < c" for i j
  proof -
    have la: "length (rows a ! i) = k" by (rule has_shape_nth [OF assms(1) i])
    have lc: "length (col b j) = k" using s(3) by (simp add: col_def size0_def)
    have "entry ?m i j = dot (rows a ! i) (col b j)"
      using i j s by (simp add: entry_def size0_def)
    also have "\<dots> = (\<Sum>l<k. rows a ! i ! l * col b j ! l)"
      using dot_sum [of "rows a ! i" "col b j"] la lc by simp
    also have "\<dots> = (\<Sum>l<k. entry a i l * entry b l j)"
      using s(3) by (intro sum.cong) (simp_all add: col_def entry_def size0_def)
    finally show ?thesis .
  qed
  with e sh show ?thesis by blast
qed

lemma expand_shaped:
  assumes "has_shape a r c"
  shows "expand r c a = rows a"
proof -
  from assms have "length (rows a) = r" "\<forall>x\<in>set (rows a). length x = c"
    by (simp_all add: has_shape_def size0_def wf_tensor2_def list_all_iff)
  then show ?thesis by (simp add: expand_def expand_list_def map_idI)
qed

lemma elementwise_shaped:
  assumes "has_shape a r c" "has_shape b r c"
  shows "\<exists>m. elementwise f a b = Inr m \<and> has_shape m r c
     \<and> (\<forall>i<r. \<forall>j<c. entry m i j = f (entry a i j) (entry b i j))"
proof -
  let ?m = "Tensor2 c (map2 (map2 f) (rows a) (rows b))"
  from assms have s: "size0 a = r" "size1 a = c" "size0 b = r" "size1 b = c"
    by (simp_all add: has_shape_def)
  have e: "elementwise f a b = Inr ?m"
    by (simp add: elementwise_def s broadcast_dim_def expand_shaped [OF assms(1)]
          expand_shaped [OF assms(2)])
  have l: "length (rows a) = r" "length (rows b) = r" using s by (simp_all add: size0_def)
  have sh: "has_shape ?m r c"
    using l has_shape_nth [OF assms(1)] has_shape_nth [OF assms(2)]
    by (intro has_shapeI) simp_all
  have "entry ?m i j = f (entry a i j) (entry b i j)" if "i < r" "j < c" for i j
    using that l has_shape_nth [OF assms(1) that(1)] has_shape_nth [OF assms(2) that(1)]
    by (simp add: entry_def)
  with e sh show ?thesis by blast
qed

lemma add_vec_shaped:
  assumes "has_shape a r c" "length v = c"
  shows "\<exists>m. add_vec a v = Inr m \<and> has_shape m r c
     \<and> (\<forall>i<r. \<forall>j<c. entry m i j = entry a i j + v ! j)"
proof -
  let ?m = "Tensor2 c (map2 (map2 (+)) (rows a) (replicate r v))"
  from assms have s: "size0 a = r" "size1 a = c" by (simp_all add: has_shape_def)
  have bd: "broadcast_dim r 1 = Some r" by (simp add: broadcast_dim_def)
  have ex: "expand r c (unsqueeze0 v) = replicate r v"
    using assms(2) by (cases "r = 1") (auto simp add: expand_def expand_list_def unsqueeze0_def)
  have e: "add_vec a v = Inr ?m"
  proof -
    have u: "size0 (unsqueeze0 v) = 1" "size1 (unsqueeze0 v) = c"
      using assms(2) by (simp_all add: unsqueeze0_def size0_def)
    have "broadcast_dim (size0 a) (size0 (unsqueeze0 v)) = Some r"
      "broadcast_dim (size1 a) (size1 (unsqueeze0 v)) = Some c"
      unfolding s u by (simp_all add: broadcast_dim_def)
    then show ?thesis
      by (simp add: add_vec_def elementwise_def ex expand_shaped [OF assms(1)])
  qed
  have l: "length (rows a) = r" using s by (simp add: size0_def)
  have sh: "has_shape ?m r c"
    using l has_shape_nth [OF assms(1)] assms(2)
    by (intro has_shapeI) simp_all
  have "entry ?m i j = entry a i j + v ! j" if "i < r" "j < c" for i j
    using that l has_shape_nth [OF assms(1) that(1)] assms(2)
    by (simp add: entry_def)
  with e sh show ?thesis by blast
qed

lemma map_tensor2_shaped:
  assumes "has_shape a r c"
  shows "has_shape (map_tensor2 f a) r c
     \<and> (\<forall>i<r. \<forall>j<c. entry (map_tensor2 f a) i j = f (entry a i j))"
proof -
  from assms have l: "length (rows a) = r" "size1 a = c"
    by (simp_all add: has_shape_def size0_def)
  have "has_shape (map_tensor2 f a) r c"
    unfolding map_tensor2_def l(2)
    using l has_shape_nth [OF assms] by (intro has_shapeI) simp_all
  moreover have "entry (map_tensor2 f a) i j = f (entry a i j)" if "i < r" "j < c" for i j
    using that l has_shape_nth [OF assms that(1)] by (simp add: entry_def map_tensor2_def)
  ultimately show ?thesis by blast
qed

lemma example_naive_init: "NaiveCustomRNN_init example_naive"
  by (simp add: NaiveCustomRNN_init_def example_naive_def has_shape_def size0_def
        wf_tensor2_def)

lemma example_naive_run:
  "NaiveCustomRNN_forward example_naive example_X (Some example_H)
     = Inr (Tensor2 1 [[7]], Tensor2 1 [[0]])"
  by (simp add: NaiveCustomRNN_forward_def example_naive_def mm_def size0_def and_then_simps
        dot_def col_def elementwise_def broadcast_dim_def expand_def expand_list_def
        add_vec_def unsqueeze0_def map_tensor2_def example_X_def example_H_def)

text \<open>
  Claim C4: on an input of shape (batch, input_size) and a hidden state of shape
  (batch, hidden_size), \<open>NaiveCustomRNN.forward\<close> returns a pair \<open>(O, H')\<close> of matrices of
  shape (batch, hidden_size) whose entries are those of the textbook formulas
  \<open>H' = tanh (X W_xh + H W_hh + b_h)\<close> and \<open>O = H' W_hq + b_q\<close>.
\<close>

theorem C4_naive_rnn_is_elman:
  assumes "NaiveCustomRNN_init self"
    and "has_shape X batch (NaiveCustomRNN.input_size self)"
    and "has_shape H batch (NaiveCustomRNN.hidden_size self)"
  shows "\<exists>out hy. NaiveCustomRNN_forward self X (Some H) = Inr (out, hy)
     \<and> has_shape hy batch (NaiveCustomRNN.hidden_size self)
     \<and> has_shape out batch (NaiveCustomRNN.hidden_size self)
     \<and> (\<forall>i<batch. \<forall>j<NaiveCustomRNN.hidden_size self.
           entry hy i j = elman_hidden self X H i j
         \<and> entry out i j = elman_output self hy i j)"
proof -
  let ?n = "NaiveCustomRNN.input_size self"
  let ?h = "NaiveCustomRNN.hidden_size self"
  from assms(1) have p: "has_shape (W_xh self) ?n ?h" "has_shape (W_hh self) ?h ?h"
    "length (b_h self) = ?h" "has_shape (W_hq self) ?h ?h" "length (b_q self) = ?h"
    by (simp_all add: NaiveCustomRNN_init_def)
  from mm_shaped [OF assms(2) p(1)] obtain xw where
    xw: "mm X (W_xh self) = Inr xw" "has_shape xw batch ?h"
    "\<And>i j. i < batch \<Longrightarrow> j < ?h \<Longrightarrow>
        entry xw i j = (\<Sum>l<?n. entry X i l * entry (W_xh self) l j)" by blast
  from mm_shaped [OF assms(3) p(2)] obtain hw where
    hw: "mm H (W_hh self) = Inr hw" "has_shape hw batch ?h"
    "\<And>i j. i < batch \<Longrightarrow> j < ?h \<Longrightarrow>
        entry hw i j = (\<Sum>l<?h. entry H i l * entry (W_hh self) l j)" by blast
  from elementwise_shaped [OF xw(2) hw(2), of "(+)"] obtain s where
    s: "elementwise (+) xw hw = Inr s" "has_shape s batch ?h"
    "\<And>i j. i < batch \<Longrightarrow> j < ?h \<Longrightarrow> entry s i j = entry xw i j + entry hw i j" by blast
  from add_vec_shaped [OF s(2) p(3)] obtain pre where
    pre: "add_vec s (b_h self) = Inr pre" "has_shape pre batch ?h"
    "\<And>i j. i < batch \<Longrightarrow> j < ?h \<Longrightarrow> entry pre i j = entry s i j + b_h self ! j" by blast
  let ?hy = "map_tensor2 tanh pre"
  from map_tensor2_shaped [OF pre(2), of tanh] have
    hy: "has_shape ?hy batch ?h"
    "\<And>i j. i < batch \<Longrightarrow> j < ?h \<Longrightarrow> entry ?hy i j = tanh (entry pre i j)" by blast+
  from mm_shaped [OF hy(1) p(4)] obtain hq where
    hq: "mm ?hy (W_hq self) = Inr hq" "has_shape hq batch ?h"
    "\<And>i j. i < batch \<Longrightarrow> j < ?h \<Longrightarrow>
        entry hq i j = (\<Sum>l<?h. entry ?hy i l * entry (W_hq self) l j)" by blast
  from add_vec_shaped [OF hq(2) p(5)] obtain out where
    out: "add_vec hq (b_q self) = Inr out" "has_shape out batch ?h"
    "\<And>i j. i < batch \<Longrightarrow> j < ?h \<Longrightarrow> entry out i j = entry hq i j + b_q self ! j" by blast
  have run: "NaiveCustomRNN_forward self X (Some H) = Inr (out, ?hy)"
    by (simp add: NaiveCustomRNN_forward_def xw(1) hw(1) s(1) pre(1) hq(1) out(1)
          and_then_simps)
  have "entry ?hy i j = elman_hidden self X H i j \<and> entry out i j = elman_output self ?hy i j"
    if "i < batch" "j < ?h" for i j
    using that by (simp add: elman_hidden_def elman_output_def hy(2) pre(3) s(3) xw(3) hw(3)
          out(3) hq(3))
  with run hy(1) out(2) show ?thesis by blast
qed

theorem C4_naive_rnn_is_elman_witness:
  "NaiveCustomRNN_init example_naive
   \<and> has_shape example_X 1 (NaiveCustomRNN.input_size example_naive)
   \<and> has_shape example_H 1 (NaiveCustomRNN.hidden_size example_naive)
   \<and> NaiveCustomRNN_forward example_naive example_X (Some example_H)
       = Inr (Tensor2 1 [[7]], Tensor2 1 [[0]])
   \<and> entry (Tensor2 1 [[0]]) 0 0 = elman_hidden example_naive example_X example_H 0 0
   \<and> entry (Tensor2 1 [[7]]) 0 0 = elman_output example_naive (Tensor2 1 [[0]]) 0 0"
proof -
  have x: "has_shape example_X 1 (NaiveCustomRNN.input_size example_naive)"
    and h: "has_shape example_H 1 (NaiveCustomRNN.hidden_size example_naive)"
    by (simp_all add: has_shape_def size0_def wf_tensor2_def example_naive_def
          example_X_def example_H_def)
  have one: "NaiveCustomRNN.hidden_size example_naive = 1" by (simp add: example_naive_def)
  from C4_naive_rnn_is_elman [OF example_naive_init x h] example_naive_init x h
  show ?thesis by (simp add: example_naive_run one)
qed

section \<open>Properties of the GloVe script\<close>

lemma sample_weight_pos: "0 < sample_weight 1"
  by (simp add: sample_weight_def)

lemma failing_wavg_loss:
  "wavg_loss (T2 failing_embeds) (column [1, 0]) (T2 failing_embeds) (column [0, 0])
     (column [1, 1]) = Inr (Value (3 / 2 * sample_weight 1))"
  "wavg_loss (T2 failing_embeds) (column [1, 0]) (T2 failing_embeds) (column [0, 0])
     (T1 [1, 1]) = Inr (Value (3 / 2 * sample_weight 1))"
  by (simp_all add: wavg_loss_def column_def broadcast_def elementwise_def broadcast_dim_def
      size0_def expand_def expand_list_def and_then_simps unsqueeze0_def map_tensor2_def
      mean_def sample_weight_def m_max_def alpha_def Let_def failing_embeds_def)

lemma failing_batch_objective:
  "batch_objective (rows failing_embeds) [1, 0] (rows failing_embeds) [0, 0] [1, 1]
     = 2 * sample_weight 1"
  by (simp add: batch_objective_def sample_loss_def dot_def failing_embeds_def
        lessThan_Suc numeral_2_eq_2)

lemma has_shape_rows:
  assumes "has_shape a r c"
  shows "length (rows a) = r" "size0 a = r" "size1 a = c"
  using assms by (simp_all add: has_shape_def size0_def)

lemma elementwise_same_shape:
  assumes "has_shape a r c" "has_shape b r c"
  shows "elementwise f a b = Inr (Tensor2 c (map2 (map2 f) (rows a) (rows b)))"
  by (simp add: elementwise_def has_shape_rows [OF assms(1)] has_shape_rows [OF assms(2)]
        broadcast_dim_def expand_shaped [OF assms(1)] expand_shaped [OF assms(2)])

lemma broadcast_vec:
  assumes "length u = length v"
  shows "broadcast f (T1 u) (T1 v) = Inr (T1 (map2 f u v))"
  using assms by (simp add: broadcast_def broadcast_dim_def expand_list_def)

lemma row_sums_are_dots:
  "map sum_list (map2 (map2 (*)) ra rb) = map2 dot ra rb"
  by (auto simp add: dot_def)

text \<open>
  With biases and counts of rank 1, one entry per sample, the value the loop computes is
  the objective of the specification.
\<close>

lemma wavg_loss_rank1:
  assumes "has_shape WE B D" "has_shape CE B D"
    and "length wb = B" "length cb = B" "length c = B" "0 < B"
  shows "wavg_loss (T2 WE) (T1 wb) (T2 CE) (T1 cb) (T1 c) =
           Inr (Value (batch_objective (rows WE) wb (rows CE) cb c))"
proof -
  let ?dots = "map2 dot (rows WE) (rows CE)"
  let ?w = "map (\<lambda>x. min x 1) (map (\<lambda>x. x powr alpha) (map (\<lambda>c. c / m_max) c))"
  let ?d = "map2 (-) (map2 (+) (map2 (+) ?dots wb) cb) (map ln c)"
  let ?L = "map2 (*) ?w (map (\<lambda>x. x ^ 2) ?d)"
  have lr: "length (rows WE) = B" "length (rows CE) = B"
    using has_shape_rows(1) [OF assms(1)] has_shape_rows(1) [OF assms(2)] by simp_all
  have s1: "broadcast (*) (T2 WE) (T2 CE) =
      Inr (T2 (Tensor2 D (map2 (map2 (*)) (rows WE) (rows CE))))"
    by (simp add: broadcast_def elementwise_same_shape [OF assms(1,2)] and_then_simps)
  have s2: "sum_dim1 (T2 (Tensor2 D (map2 (map2 (*)) (rows WE) (rows CE)))) = Inr (T1 ?dots)"
    unfolding sum_dim1.simps tensor2.sel row_sums_are_dots ..
  have s3: "broadcast (+) (T1 ?dots) (T1 wb) = Inr (T1 (map2 (+) ?dots wb))"
    by (rule broadcast_vec) (simp add: lr assms(3))
  have s4: "broadcast (+) (T1 (map2 (+) ?dots wb)) (T1 cb) =
      Inr (T1 (map2 (+) (map2 (+) ?dots wb) cb))"
    by (rule broadcast_vec) (simp add: lr assms(3,4))
  have s5: "broadcast (-) (T1 (map2 (+) (map2 (+) ?dots wb) cb)) (T1 (map ln c)) = Inr (T1 ?d)"
    by (rule broadcast_vec) (simp add: lr assms(3,4,5))
  have s6: "broadcast (*) (T1 ?w) (T1 (map (\<lambda>x. x ^ 2) ?d)) = Inr (T1 ?L)"
    by (rule broadcast_vec) (simp add: lr assms(3,4,5))
  have len: "length ?L = B" by (simp add: lr assms(3,4,5))
  have run: "wavg_loss (T2 WE) (T1 wb) (T2 CE) (T1 cb) (T1 c) = Inr (mean (T1 ?L))"
    unfolding wavg_loss_def Let_def map_tensor.simps s1 and_then_simps s2 s3 s4 s5 s6 ..
  have nth: "?L ! i = sample_weight (c ! i) *
      sample_loss (rows WE ! i) (wb ! i) (rows CE ! i) (cb ! i) (c ! i)" if "i < B" for i
    using that lr assms(3,4,5)
    by (simp add: sample_weight_def sample_loss_def m_max_def alpha_def)
  have "sum_list ?L = (\<Sum>i = 0..<length ?L. ?L ! i)" by (rule sum_list_sum_nth)
  also have "\<dots> = (\<Sum>i<B. ?L ! i)" unfolding len by (simp add: atLeast0LessThan)
  also have "\<dots> = (\<Sum>i<B. sample_weight (c ! i) *
      sample_loss (rows WE ! i) (wb ! i) (rows CE ! i) (cb ! i) (c ! i))"
    by (intro sum.cong refl nth) simp
  finally have sum: "sum_list ?L = (\<Sum>i<B. sample_weight (c ! i) *
      sample_loss (rows WE ! i) (wb ! i) (rows CE ! i) (cb ! i) (c ! i))" .
  have "?L \<noteq> []" using len assms(6) by (metis length_0_conv less_numeral_extra(3))
  then have "mean (T1 ?L) = Value (sum_list ?L / real B)"
    using len by (simp add: mean_def)
  with run sum show ?thesis by (simp add: batch_objective_def assms(5))
qed

text \<open>
  Claim C1: the batch loss is the mean over the batch of weight times loss of each
  sample. With the biases of shape (batch size, 1) that the comments of the script give,
  the row sums of shape (batch size) broadcast against them to a square matrix, and the
  mean runs over batch size squared entries. On the batch of two samples below, with
  counts 1, the loop computes 3/2 of the weight of a count of 1 where the objective of the
  specification is twice that weight.
\<close>

theorem C1_objective_broadcasts_to_matrix:
  "wavg_loss (T2 failing_embeds) (column [1, 0]) (T2 failing_embeds) (column [0, 0])
     (column [1, 1]) = Inr (Value (3 / 2 * sample_weight 1))
   \<and> wavg_loss (T2 failing_embeds) (column [1, 0]) (T2 failing_embeds) (column [0, 0])
     (T1 [1, 1]) = Inr (Value (3 / 2 * sample_weight 1))
   \<and> batch_objective (rows failing_embeds) [1, 0] (rows failing_embeds) [0, 0] [1, 1]
     = 2 * sample_weight 1
   \<and> 3 / 2 * sample_weight 1 \<noteq> 2 * sample_weight 1"
  using failing_wavg_loss failing_batch_objective sample_weight_pos by simp

lemma example_save:
  "save_combined_embeds example_vocab example_W example_C Map.empty =
     Inr [''glove.vec'' \<mapsto> [(''the'', [11, 22]), (''cat'', [33, 44])]]"
  by (simp add: save_combined_embeds_def elementwise_def broadcast_dim_def size0_def
        expand_def expand_list_def and_then_simps save_pretrained_def example_vocab_def
        example_W_def example_C_def)

text \<open>
  Claim C7: the script writes to \<open>glove.vec\<close> one line per vocabulary token, pairing the
  token with the elementwise sum of its rows in the word-embedding and the
  context-embedding matrix; no other file changes.
\<close>

theorem C7_glove_vec_is_sum_of_embeddings:
  assumes "has_shape W (length vocab) d" and "has_shape C (length vocab) d"
  shows "\<exists>fs' file. save_combined_embeds vocab W C fs = Inr fs'
     \<and> fs' ''glove.vec'' = Some file
     \<and> length file = length vocab
     \<and> (\<forall>i<length vocab.
           fst (file ! i) = vocab ! i
         \<and> snd (file ! i) = map2 (+) (rows W ! i) (rows C ! i)
         \<and> length (snd (file ! i)) = d
         \<and> (\<forall>j<d. snd (file ! i) ! j = entry W i j + entry C i j))
     \<and> (\<forall>p. p \<noteq> ''glove.vec'' \<longrightarrow> fs' p = fs p)"
proof -
  let ?sum = "map2 (map2 (+)) (rows W) (rows C)"
  let ?file = "zip vocab ?sum"
  let ?fs = "fs(''glove.vec'' \<mapsto> ?file)"
  have l: "length (rows W) = length vocab" "length (rows C) = length vocab"
    using has_shape_rows(1) [OF assms(1)] has_shape_rows(1) [OF assms(2)] by simp_all
  have run: "save_combined_embeds vocab W C fs = Inr ?fs"
    by (simp add: save_combined_embeds_def elementwise_same_shape [OF assms] and_then_simps
          save_pretrained_def size0_def l)
  have row: "fst (?file ! i) = vocab ! i
         \<and> snd (?file ! i) = map2 (+) (rows W ! i) (rows C ! i)
         \<and> length (snd (?file ! i)) = d
         \<and> (\<forall>j<d. snd (?file ! i) ! j = entry W i j + entry C i j)"
    if i: "i < length vocab" for i
  proof -
    have "length (rows W ! i) = d" "length (rows C ! i) = d"
      using assms i by (simp_all add: has_shape_def wf_tensor2_def list_all_length size0_def)
    then show ?thesis using i l by (simp add: entry_def)
  qed
  have "?fs ''glove.vec'' = Some ?file" "length ?file = length vocab"
    "\<forall>p. p \<noteq> ''glove.vec'' \<longrightarrow> ?fs p = fs p"
    using l by simp_all
  with run row show ?thesis by blast
qed

theorem C7_glove_vec_is_sum_of_embeddings_witness:
  "has_shape example_W (length example_vocab) 2
   \<and> has_shape example_C (length example_vocab) 2
   \<and> save_combined_embeds example_vocab example_W example_C Map.empty =
       Inr [''glove.vec'' \<mapsto> [(''the'', [11, 22]), (''cat'', [33, 44])]]"
proof -
  have w: "has_shape example_W (length example_vocab) 2"
    and c: "has_shape example_C (length example_vocab) 2"
    by (simp_all add: has_shape_def size0_def wf_tensor2_def example_W_def example_C_def
          example_vocab_def)
  from C7_glove_vec_is_sum_of_embeddings [OF w c, of Map.empty] w c example_save
  show ?thesis by simp
qed

end
